theory Spec2Isabelle
  imports Main
begin

section \<open>The video assembly pipeline of pres\_gen\_new\<close>

text \<open>
  A shallow embedding of \<^verbatim>\<open>video_processor.py\<close> (the pipeline
  \<^verbatim>\<open>process_video_with_presentation\<close> and its helpers) and of the task wrapper
  \<^verbatim>\<open>create_video_task\<close> of \<^verbatim>\<open>celery_worker.py\<close>.

  The Python code acts on the file system and on external programs. The model makes
  these explicit:
  \<^item> a \<open>world\<close> holds the regular files and the directories that exist and a trace of
    the effects performed so far. A file is not its path string: the environment says
    which directory entry a path string denotes (\<open>resolve\<close>), so that
    \<^verbatim>\<open>uploads/a.mp4\<close>, \<^verbatim>\<open>uploads//a.mp4\<close> and \<^verbatim>\<open>./uploads/a.mp4\<close>
    can be one file;
  \<^item> an \<open>env\<close> holds what the code cannot decide: what the timeline and the document
    contain, how the interpreter subtracts and prints floating point numbers, whether
    an external command can be started and how it exits, and whether the operating
    system lets a file be written or removed;
  \<^item> every exception is a value of the type \<open>error\<close>, and every function returns the
    world it leaves behind, also when it raises.
\<close>

subsection \<open>Data\<close>

type_synonym path = string
type_synonym cmd = "string list"

text \<open>
  The exceptions. \<^verbatim>\<open>json.JSONDecodeError\<close> is a subclass of \<^verbatim>\<open>ValueError\<close>
  (see \<open>is_ValueError\<close>); the errors of the file system are subclasses of \<^verbatim>\<open>OSError\<close>.
\<close>

datatype error =
    ValueError string
  | JSONDecodeError string
  | KeyError string
  | TypeError
  | AttributeError
  | OverflowError
  | IndexError
  | FileNotFoundError path
  | FileExistsError path
  | PermissionError path
  | OSError path
  | CalledProcessError int cmd
  | PdfReadError string
  | BackendError

fun is_ValueError :: "error \<Rightarrow> bool" where
  "is_ValueError (ValueError m) = True"
| "is_ValueError (JSONDecodeError m) = True"
| "is_ValueError err = False"

text \<open>
  A value of the timeline. A float is given by its \<^verbatim>\<open>repr\<close>, the text that
  \<^verbatim>\<open>str\<close> prints for it; \<open>JOther\<close> is a list or an object, given by what
  \<^verbatim>\<open>str\<close> prints for it (\<open>None\<close> when printing it raises \<^verbatim>\<open>ValueError\<close>).
\<close>

datatype pyfloat = PyFloat string

datatype jvalue =
    JInt int
  | JFloat pyfloat
  | JBool bool
  | JString string
  | JNull
  | JOther "string option"

text \<open>One entry of \<^verbatim>\<open>data["slides"]\<close>: a JSON object whose keys may be missing,
  or a value that is no object.\<close>

record slide_data =
  sd_title :: "jvalue option"
  sd_start :: "jvalue option"
  sd_end :: "jvalue option"

datatype entry = Object slide_data | NotObject

text \<open>How a command ended: it exited with a status, or it could not be started.\<close>

datatype status = Exit int | NotFound | NotPermitted

datatype event =
    MakeDirs path
  | SavePage path
  | Run cmd status
  | WriteFile path string
  | Remove path
  | Warned path
  | Printed path
  | TaskFailed error
  | UpdateState

record world =
  files :: "path set"
  dirs :: "path set"
  trace :: "event list"

text \<open>
  The environment. \<open>resolve p\<close> is the directory entry that the path string \<open>p\<close> denotes,
  by a canonical name: two strings denote the same file exactly when they resolve to the
  same name. \<open>files\<close> and \<open>dirs\<close> of a world hold such names. \<open>json_slides\<close> is the outcome of lines 146 to 148: an exception, or
  the value of \<^verbatim>\<open>data["slides"]\<close>, which is \<open>None\<close> when it has no length.
  \<open>pdf_open\<close> is the outcome of \<^verbatim>\<open>PdfReader(path)\<close>, \<open>pdf_num_pages\<close> that of
  \<^verbatim>\<open>len(reader.pages)\<close>. \<open>int_max_str_digits\<close> is the interpreter's limit on the
  digits of an integer that \<^verbatim>\<open>str\<close> converts (4300 by default, 0 for no limit, as
  in an interpreter older than the limit), \<open>digits_message\<close> the message of the
  \<^verbatim>\<open>ValueError\<close> that \<^verbatim>\<open>str\<close> raises beyond it.
\<close>

record env =
  resolve :: "path \<Rightarrow> path"
  json_slides :: "path \<Rightarrow> error + entry list option"
  pdf_open :: "path \<Rightarrow> error option"
  pdf_num_pages :: "path \<Rightarrow> error + nat"
  convert_from_path :: "path \<Rightarrow> error + nat"
  save_ok :: "path \<Rightarrow> bool"
  makedirs_ok :: "path \<Rightarrow> bool"
  open_write_ok :: "path \<Rightarrow> bool"
  ffmpeg :: "cmd \<Rightarrow> path set \<Rightarrow> status"
  leaves_partial :: "cmd \<Rightarrow> bool"
  remove_ok :: "path \<Rightarrow> bool"
  update_state_ok :: bool
  float_sub :: "pyfloat \<Rightarrow> pyfloat \<Rightarrow> pyfloat"
  float_of_int :: "int \<Rightarrow> pyfloat option"
  int_max_str_digits :: nat
  digits_message :: string

text \<open>The two lists that \<^verbatim>\<open>process_video_with_presentation\<close> grows.\<close>

record locals =
  video_fragments :: "path list"
  cycle_temp_files :: "path list"

subsection \<open>Strings and numbers: \<^verbatim>\<open>str\<close>, subtraction, format specifications, \<^verbatim>\<open>os.path\<close>\<close>

definition digit_char :: "nat \<Rightarrow> char" where
  "digit_char d = ''0123456789'' ! d"

fun str_nat :: "nat \<Rightarrow> string" where
  "str_nat n = (if n < 10 then [digit_char n] else str_nat (n div 10) @ [digit_char (n mod 10)])"

declare str_nat.simps [simp del]

text \<open>The number that a string of decimal digits denotes.\<close>

definition digit_val :: "char \<Rightarrow> nat" where
  "digit_val c = length (takeWhile (\<lambda>d. d \<noteq> c) ''0123456789'')"

definition decimal :: "string \<Rightarrow> nat" where
  "decimal ds = foldl (\<lambda>a c. 10 * a + digit_val c) 0 ds"

definition str_int :: "int \<Rightarrow> string" where
  "str_int i = (if i < 0 then ''-'' @ str_nat (nat (- i)) else str_nat (nat i))"

text \<open>
  \<^verbatim>\<open>str(v)\<close>, which is also what an f-string prints for \<open>v\<close>. For an integer with
  more digits than the limit it raises \<^verbatim>\<open>ValueError\<close>.
\<close>

definition py_str :: "env \<Rightarrow> jvalue \<Rightarrow> error + string" where
  "py_str e v =
     (case v of
        JInt i \<Rightarrow>
          if int_max_str_digits e \<noteq> 0 \<and> int_max_str_digits e < length (str_nat (nat \<bar>i\<bar>))
          then Inl (ValueError (digits_message e))
          else Inr (str_int i)
      | JFloat (PyFloat r) \<Rightarrow> Inr r
      | JBool b \<Rightarrow> Inr (if b then ''True'' else ''False'')
      | JString s \<Rightarrow> Inr s
      | JNull \<Rightarrow> Inr ''None''
      | JOther None \<Rightarrow> Inl (ValueError (digits_message e))
      | JOther (Some s) \<Rightarrow> Inr s)"

text \<open>The number that takes part in arithmetic: an integer (a Boolean is one) or a float.\<close>

definition as_number :: "jvalue \<Rightarrow> (int + pyfloat) option" where
  "as_number v =
     (case v of
        JInt i \<Rightarrow> Some (Inl i)
      | JBool b \<Rightarrow> Some (Inl (if b then 1 else 0))
      | JFloat f \<Rightarrow> Some (Inr f)
      | _ \<Rightarrow> None)"

definition to_float :: "env \<Rightarrow> int + pyfloat \<Rightarrow> error + pyfloat" where
  "to_float e n =
     (case n of
        Inr f \<Rightarrow> Inr f
      | Inl i \<Rightarrow> (case float_of_int e i of None \<Rightarrow> Inl OverflowError | Some f \<Rightarrow> Inr f))"

text \<open>
  \<^verbatim>\<open>a - b\<close>: exact on integers, the interpreter's subtraction on floats (an integer
  operand is converted first, which overflows for a huge one), \<^verbatim>\<open>TypeError\<close> for
  anything that is no number.
\<close>

definition py_sub :: "env \<Rightarrow> jvalue \<Rightarrow> jvalue \<Rightarrow> error + jvalue" where
  "py_sub e a b =
     (case (as_number a, as_number b) of
        (Some (Inl i), Some (Inl j)) \<Rightarrow> Inr (JInt (i - j))
      | (Some x, Some y) \<Rightarrow>
          (case to_float e x of
             Inl err \<Rightarrow> Inl err
           | Inr f \<Rightarrow>
          (case to_float e y of
             Inl err \<Rightarrow> Inl err
           | Inr g \<Rightarrow> Inr (JFloat (float_sub e f g))))
      | _ \<Rightarrow> Inl TypeError)"

text \<open>\<^verbatim>\<open>f'{i:02d}'\<close> for an index \<open>i \<ge> 0\<close>: at least two digits, padded with a zero.\<close>

definition fmt_02d :: "nat \<Rightarrow> string" where
  "fmt_02d i = (if i < 10 then ''0'' @ str_nat i else str_nat i)"

definition is_slash :: "char \<Rightarrow> bool" where
  "is_slash c = (c = CHR ''/'')"

text \<open>\<^verbatim>\<open>posixpath.join\<close> of two components.\<close>

definition os_path_join :: "path \<Rightarrow> path \<Rightarrow> path" where
  "os_path_join a b =
     (if b \<noteq> [] \<and> is_slash (hd b) then b
      else if a = [] \<or> is_slash (last a) then a @ b
      else a @ ''/'' @ b)"

text \<open>
  \<^verbatim>\<open>posixpath.dirname\<close>: everything up to the last slash, with the trailing
  slashes removed unless the head consists of slashes only.
\<close>

definition os_path_dirname :: "path \<Rightarrow> path" where
  "os_path_dirname p =
     (let head = rev (dropWhile (\<lambda>c. \<not> is_slash c) (rev p));
          stripped = rev (dropWhile is_slash (rev head))
      in if stripped = [] then head else stripped)"

subsection \<open>File system operations\<close>

definition os_path_exists :: "env \<Rightarrow> world \<Rightarrow> path \<Rightarrow> bool" where
  "os_path_exists e w p = (resolve e p \<in> files w \<or> resolve e p \<in> dirs w)"

text \<open>\<^verbatim>\<open>os.makedirs(p, exist_ok=...)\<close>.\<close>

definition os_makedirs :: "env \<Rightarrow> path \<Rightarrow> bool \<Rightarrow> world \<Rightarrow> error option \<times> world" where
  "os_makedirs e p exist_ok w =
     (if p = [] then (Some (FileNotFoundError p), w)
      else if resolve e p \<in> files w then (Some (FileExistsError p), w)
      else if resolve e p \<in> dirs w
        then (if exist_ok then (None, w) else (Some (FileExistsError p), w))
      else if makedirs_ok e p
        then (None, w\<lparr>dirs := insert (resolve e p) (dirs w), trace := trace w @ [MakeDirs p]\<rparr>)
      else (Some (OSError p), w))"

text \<open>\<^verbatim>\<open>os.remove(p)\<close>: only a regular file can be removed, and only if the system
  allows it; every failure is an \<^verbatim>\<open>OSError\<close>.\<close>

definition os_remove :: "env \<Rightarrow> path \<Rightarrow> world \<Rightarrow> error option \<times> world" where
  "os_remove e p w =
     (if resolve e p \<in> files w \<and> remove_ok e (resolve e p)
        then (None, w\<lparr>files := files w - {resolve e p}, trace := trace w @ [Remove p]\<rparr>)
      else (Some (OSError p), w))"

text \<open>
  The removal loop shared by the \<^verbatim>\<open>finally\<close> block of the pipeline and by
  \<^verbatim>\<open>cleanup_files\<close>: a path that exists is removed inside
  \<^verbatim>\<open>try ... except OSError\<close>, and the handler only reports (\<open>report\<close> is the
  event of the report).
\<close>

fun remove_each :: "(path \<Rightarrow> event) \<Rightarrow> env \<Rightarrow> path list \<Rightarrow> world \<Rightarrow> world" where
  "remove_each report e [] w = w"
| "remove_each report e (p # ps) w =
     remove_each report e ps
       (if os_path_exists e w p
        then (case os_remove e p w of
                (None, w') \<Rightarrow> w'
              | (Some err, w') \<Rightarrow> w'\<lparr>trace := trace w' @ [report p]\<rparr>)
        else w)"

text \<open>\<^verbatim>\<open>cleanup_files\<close> of \<^verbatim>\<open>celery_worker.py\<close>: the handler prints.\<close>

definition cleanup_files :: "env \<Rightarrow> path list \<Rightarrow> world \<Rightarrow> world" where
  "cleanup_files e paths w = remove_each Printed e paths w"

subsection \<open>The external transcoder\<close>

text \<open>
  \<^verbatim>\<open>subprocess.run(cmd, check=True)\<close>. Every command of this program names its
  output file last. Exit status 0 leaves the output file behind; another status raises
  \<^verbatim>\<open>CalledProcessError\<close>, and the command may still have left a partial output;
  a program that cannot be started raises \<^verbatim>\<open>FileNotFoundError\<close> or
  \<^verbatim>\<open>PermissionError\<close>.
\<close>

definition proc_error :: "status \<Rightarrow> cmd \<Rightarrow> error" where
  "proc_error st c =
     (case st of
        Exit rc \<Rightarrow> CalledProcessError rc c
      | NotFound \<Rightarrow> FileNotFoundError ''ffmpeg''
      | NotPermitted \<Rightarrow> PermissionError ''ffmpeg'')"

definition subprocess_run :: "env \<Rightarrow> cmd \<Rightarrow> world \<Rightarrow> error option \<times> world" where
  "subprocess_run e c w =
     (let st = ffmpeg e c (files w) in
      if st = Exit 0
        then (None, w\<lparr>files := insert (resolve e (last c)) (files w),
                      trace := trace w @ [Run c (Exit 0)]\<rparr>)
      else (Some (proc_error st c),
            w\<lparr>files := (if st \<noteq> NotFound \<and> st \<noteq> NotPermitted \<and> leaves_partial e c
                         then insert (resolve e (last c)) (files w) else files w),
              trace := trace w @ [Run c st]\<rparr>))"

text \<open>The argument vectors, with the numbers already printed.\<close>

definition cut_video_args :: "path \<Rightarrow> string \<Rightarrow> string \<Rightarrow> path \<Rightarrow> cmd" where
  "cut_video_args input_video_path start end_t output_video_path =
     [''ffmpeg'', ''-ss'', start, ''-to'', end_t, ''-i'', input_video_path,
      ''-hide_banner'', ''-c:v'', ''libx264'', ''-c:a'', ''aac'', ''-y'', output_video_path]"

definition slide_to_video_args :: "path \<Rightarrow> string \<Rightarrow> path \<Rightarrow> cmd" where
  "slide_to_video_args slide_img_path duration output_video_path =
     [''ffmpeg'', ''-loop'', ''1'', ''-i'', slide_img_path, ''-hide_banner'',
      ''-t'', duration, ''-vf'', ''scale=1080:1080'', ''-c:v'', ''libx264'', ''-y'',
      output_video_path]"

definition resize_video_cmd :: "path \<Rightarrow> path \<Rightarrow> cmd" where
  "resize_video_cmd input_video_path output_video_path =
     [''ffmpeg'', ''-i'', input_video_path, ''-hide_banner'', ''-vf'', ''scale=840:1080'',
      ''-c:v'', ''libx264'', ''-y'', output_video_path]"

definition combine_videos_cmd :: "path \<Rightarrow> path \<Rightarrow> path \<Rightarrow> cmd" where
  "combine_videos_cmd slide_video_path speaker_video_path output_video_path =
     [''ffmpeg'', ''-i'', slide_video_path, ''-i'', speaker_video_path, ''-hide_banner'',
      ''-filter_complex'', ''[0:v][1:v]hstack=inputs=2[v]'', ''-map'', ''[v]'',
      ''-map'', ''1:a?'', ''-c:v'', ''libx264'', ''-c:a'', ''aac'', ''-y'', output_video_path]"

definition concat_videos_cmd :: "path \<Rightarrow> cmd" where
  "concat_videos_cmd output_video_path =
     [''ffmpeg'', ''-f'', ''concat'', ''-safe'', ''0'', ''-i'', ''inputs.txt'',
      ''-hide_banner'', ''-c'', ''copy'', ''-y'', output_video_path]"

text \<open>
  Building the list \<^verbatim>\<open>cmd\<close> of \<^verbatim>\<open>cut_video\<close> and of \<^verbatim>\<open>slide_to_video\<close>
  evaluates \<^verbatim>\<open>str(start)\<close>, \<^verbatim>\<open>str(end)\<close> and \<^verbatim>\<open>str(duration)\<close>, which can raise.
\<close>

definition cut_video_cmd :: "env \<Rightarrow> path \<Rightarrow> jvalue \<Rightarrow> jvalue \<Rightarrow> path \<Rightarrow> error + cmd" where
  "cut_video_cmd e input_video_path start end_t output_video_path =
     (case py_str e start of
        Inl err \<Rightarrow> Inl err
      | Inr s \<Rightarrow>
     (case py_str e end_t of
        Inl err \<Rightarrow> Inl err
      | Inr t \<Rightarrow> Inr (cut_video_args input_video_path s t output_video_path)))"

definition slide_to_video_cmd :: "env \<Rightarrow> path \<Rightarrow> jvalue \<Rightarrow> path \<Rightarrow> error + cmd" where
  "slide_to_video_cmd e slide_img_path duration output_video_path =
     (case py_str e duration of
        Inl err \<Rightarrow> Inl err
      | Inr d \<Rightarrow> Inr (slide_to_video_args slide_img_path d output_video_path))"

text \<open>A step of the pipeline: the command line is built, which may raise, and then run.\<close>

definition run_step :: "env \<Rightarrow> error + cmd \<Rightarrow> world \<Rightarrow> error option \<times> world" where
  "run_step e x w = (case x of Inl err \<Rightarrow> (Some err, w) | Inr c \<Rightarrow> subprocess_run e c w)"

definition cut_video :: "env \<Rightarrow> path \<Rightarrow> jvalue \<Rightarrow> jvalue \<Rightarrow> path \<Rightarrow> world \<Rightarrow> error option \<times> world" where
  "cut_video e input_video_path start end_t output_video_path w =
     run_step e (cut_video_cmd e input_video_path start end_t output_video_path) w"

definition slide_to_video :: "env \<Rightarrow> path \<Rightarrow> jvalue \<Rightarrow> path \<Rightarrow> world \<Rightarrow> error option \<times> world" where
  "slide_to_video e slide_img_path duration output_video_path w =
     run_step e (slide_to_video_cmd e slide_img_path duration output_video_path) w"

definition resize_video :: "env \<Rightarrow> path \<Rightarrow> path \<Rightarrow> world \<Rightarrow> error option \<times> world" where
  "resize_video e input_video_path output_video_path w =
     run_step e (Inr (resize_video_cmd input_video_path output_video_path)) w"

definition combine_videos :: "env \<Rightarrow> path \<Rightarrow> path \<Rightarrow> path \<Rightarrow> world \<Rightarrow> error option \<times> world" where
  "combine_videos e slide_video_path speaker_video_path output_video_path w =
     run_step e
       (Inr (combine_videos_cmd slide_video_path speaker_video_path output_video_path)) w"

text \<open>The text that \<^verbatim>\<open>concat_videos\<close> writes: one line \<^verbatim>\<open>file '<path>'\<close> per clip.\<close>

definition manifest_line :: "path \<Rightarrow> string" where
  "manifest_line v = ''file '' @ [CHR 0x27] @ v @ [CHR 0x27, CHR 0x0A]"

definition manifest_text :: "path list \<Rightarrow> string" where
  "manifest_text video_list = concat (map manifest_line video_list)"

definition concat_videos :: "env \<Rightarrow> path list \<Rightarrow> path \<Rightarrow> world \<Rightarrow> error option \<times> world" where
  "concat_videos e video_list output_video_path w =
     (if \<not> open_write_ok e ''inputs.txt'' \<or> resolve e ''inputs.txt'' \<in> dirs w
        then (Some (OSError ''inputs.txt''), w)
      else subprocess_run e (concat_videos_cmd output_video_path)
             (w\<lparr>files := insert (resolve e ''inputs.txt'') (files w),
                trace := trace w @ [WriteFile ''inputs.txt'' (manifest_text video_list)]\<rparr>))"

subsection \<open>Rasterizing the document\<close>

definition slide_image_path :: "path \<Rightarrow> nat \<Rightarrow> path" where
  "slide_image_path output_folder i =
     os_path_join output_folder (''slide_'' @ fmt_02d (i + 1) @ ''.png'')"

text \<open>
  The loop of \<^verbatim>\<open>convert_pdf_to_images\<close> over \<^verbatim>\<open>enumerate(slides)\<close>, for the
  indices \<open>i, i + 1, \<dots>\<close> of the \<open>n\<close> pages that are left; \<open>acc\<close> is
  \<^verbatim>\<open>image_paths\<close>.
\<close>

fun save_slides :: "env \<Rightarrow> path \<Rightarrow> nat \<Rightarrow> nat \<Rightarrow> path list \<Rightarrow> world \<Rightarrow> (error + path list) \<times> world" where
  "save_slides e output_folder i 0 acc w = (Inr acc, w)"
| "save_slides e output_folder i (Suc n) acc w =
     (let image_path = slide_image_path output_folder i in
      if \<not> save_ok e image_path \<or> resolve e image_path \<in> dirs w
        then (Inl (OSError image_path), w)
      else save_slides e output_folder (Suc i) n (acc @ [image_path])
             (w\<lparr>files := insert (resolve e image_path) (files w),
                trace := trace w @ [SavePage image_path]\<rparr>))"

definition convert_pdf_to_images :: "env \<Rightarrow> path \<Rightarrow> path \<Rightarrow> world \<Rightarrow> (error + path list) \<times> world" where
  "convert_pdf_to_images e pdf_path output_folder w =
     (case (if \<not> os_path_exists e w output_folder then os_makedirs e output_folder False w
            else (None, w)) of
        (Some err, w1) \<Rightarrow> (Inl err, w1)
      | (None, w1) \<Rightarrow>
          (case convert_from_path e pdf_path of
             Inl err \<Rightarrow> (Inl err, w1)
           | Inr n \<Rightarrow> save_slides e output_folder 0 n [] w1))"

subsection \<open>One segment\<close>

definition speaker_cut_path :: "path \<Rightarrow> nat \<Rightarrow> path" where
  "speaker_cut_path temp_folder i = os_path_join temp_folder (''speaker_'' @ fmt_02d i @ ''.mp4'')"

definition slide_vid_path :: "path \<Rightarrow> nat \<Rightarrow> path" where
  "slide_vid_path temp_folder i = os_path_join temp_folder (''slide_'' @ fmt_02d i @ ''.mp4'')"

definition speaker_resized_path :: "path \<Rightarrow> nat \<Rightarrow> path" where
  "speaker_resized_path temp_folder i =
     os_path_join temp_folder (''speaker_'' @ fmt_02d i @ ''_resized.mp4'')"

definition combined_path :: "path \<Rightarrow> nat \<Rightarrow> path" where
  "combined_path temp_folder i = os_path_join temp_folder (''combined_'' @ fmt_02d i @ ''.mp4'')"

definition track :: "path \<Rightarrow> locals \<Rightarrow> locals" where
  "track p l = l\<lparr>cycle_temp_files := cycle_temp_files l @ [p]\<rparr>"

text \<open>
  Lines 169 to 176 of the loop body, before the first command: the log line prints the
  title, then \<^verbatim>\<open>start\<close>, \<^verbatim>\<open>end\<close>, \<^verbatim>\<open>duration = end - start\<close> and the page
  image of index \<open>i\<close> are read. The result is \<^verbatim>\<open>(start, end, duration)\<close>.
\<close>

definition segment_inputs :: "env \<Rightarrow> nat \<Rightarrow> nat \<Rightarrow> entry \<Rightarrow> error + jvalue \<times> jvalue \<times> jvalue" where
  "segment_inputs e num_images i x =
     (case x of
        NotObject \<Rightarrow> Inl AttributeError
      | Object slide_data \<Rightarrow>
     (case (case sd_title slide_data of None \<Rightarrow> Inr ''No Title'' | Some v \<Rightarrow> py_str e v) of
        Inl err \<Rightarrow> Inl err
      | Inr title \<Rightarrow>
     (case sd_start slide_data of
        None \<Rightarrow> Inl (KeyError ''start'')
      | Some start \<Rightarrow>
     (case sd_end slide_data of
        None \<Rightarrow> Inl (KeyError ''end'')
      | Some end_t \<Rightarrow>
     (case py_sub e end_t start of
        Inl err \<Rightarrow> Inl err
      | Inr duration \<Rightarrow>
          if \<not> i < num_images then Inl IndexError else Inr (start, end_t, duration))))))"

text \<open>
  The body of the \<^verbatim>\<open>for\<close> loop for segment \<open>i\<close>. The result is the exception
  that leaves the body, if any, with the two lists and the world at that moment.
\<close>

definition process_segment ::
  "env \<Rightarrow> path \<Rightarrow> path \<Rightarrow> path list \<Rightarrow> nat \<Rightarrow> entry \<Rightarrow> locals \<times> world
     \<Rightarrow> error option \<times> locals \<times> world" where
  "process_segment e temp_folder video_path slide_image_paths i x s =
     (case s of (l, w) \<Rightarrow>
     (case segment_inputs e (length slide_image_paths) i x of
        Inl err \<Rightarrow> (Some err, l, w)
      | Inr (start, end_t, duration) \<Rightarrow>
      (let slide_img_path = slide_image_paths ! i;
           speaker_cut = speaker_cut_path temp_folder i in
      (case cut_video e video_path start end_t speaker_cut w of
         (Some err, w1) \<Rightarrow> (Some err, l, w1)
       | (None, w1) \<Rightarrow>
      (let l1 = track speaker_cut l;
           slide_vid = slide_vid_path temp_folder i in
      (case slide_to_video e slide_img_path duration slide_vid w1 of
         (Some err, w2) \<Rightarrow> (Some err, l1, w2)
       | (None, w2) \<Rightarrow>
      (let l2 = track slide_vid l1;
           speaker_resized = speaker_resized_path temp_folder i in
      (case resize_video e speaker_cut speaker_resized w2 of
         (Some err, w3) \<Rightarrow> (Some err, l2, w3)
       | (None, w3) \<Rightarrow>
      (let l3 = track speaker_resized l2;
           combined = combined_path temp_folder i in
      (case combine_videos e slide_vid speaker_resized combined w3 of
         (Some err, w4) \<Rightarrow> (Some err, l3, w4)
       | (None, w4) \<Rightarrow>
           (None, track combined (l3\<lparr>video_fragments := video_fragments l3 @ [combined]\<rparr>),
            w4)))))))))))"

text \<open>The loop over \<^verbatim>\<open>enumerate(slides_data_list)\<close>, from index \<open>i\<close> on.\<close>

fun process_slides ::
  "env \<Rightarrow> path \<Rightarrow> path \<Rightarrow> path list \<Rightarrow> nat \<Rightarrow> entry list \<Rightarrow> locals \<times> world
     \<Rightarrow> error option \<times> locals \<times> world" where
  "process_slides e temp_folder video_path slide_image_paths i [] s = (None, s)"
| "process_slides e temp_folder video_path slide_image_paths i (x # rest) s =
     (case process_segment e temp_folder video_path slide_image_paths i x s of
        (Some err, s') \<Rightarrow> (Some err, s')
      | (None, s') \<Rightarrow> process_slides e temp_folder video_path slide_image_paths (Suc i) rest s')"

subsection \<open>The pipeline\<close>

text \<open>
  The message of the \<^verbatim>\<open>ValueError\<close> raised when the counts differ, as UTF-8 bytes:
  the Russian text, the number of entries of the timeline, more text, the number of pages.
\<close>

definition mismatch_prefix :: string where
  "mismatch_prefix =
     [CHR 0xD0, CHR 0x9A, CHR 0xD0, CHR 0xBE, CHR 0xD0, CHR 0xBB, CHR 0xD0, CHR 0xB8, CHR 0xD1,
      CHR 0x87, CHR 0xD0, CHR 0xB5, CHR 0xD1, CHR 0x81, CHR 0xD1, CHR 0x82, CHR 0xD0, CHR 0xB2,
      CHR 0xD0, CHR 0xBE, CHR 0x20, CHR 0xD1, CHR 0x81, CHR 0xD0, CHR 0xBB, CHR 0xD0, CHR 0xB0,
      CHR 0xD0, CHR 0xB9, CHR 0xD0, CHR 0xB4, CHR 0xD0, CHR 0xBE, CHR 0xD0, CHR 0xB2, CHR 0x20,
      CHR 0xD0, CHR 0xBD, CHR 0xD0, CHR 0xB5, CHR 0x20, CHR 0xD1, CHR 0x81, CHR 0xD0, CHR 0xBE,
      CHR 0xD0, CHR 0xB2, CHR 0xD0, CHR 0xBF, CHR 0xD0, CHR 0xB0, CHR 0xD0, CHR 0xB4, CHR 0xD0,
      CHR 0xB0, CHR 0xD0, CHR 0xB5, CHR 0xD1, CHR 0x82, CHR 0x21, CHR 0x20, CHR 0xD0, CHR 0x92,
      CHR 0x20] @ ''JSON: ''"

definition mismatch_infix :: string where
  "mismatch_infix = '', '' @ [CHR 0xD0, CHR 0xB2] @ '' PDF: ''"

definition mismatch_message :: "nat \<Rightarrow> nat \<Rightarrow> string" where
  "mismatch_message n_json n_pdf = mismatch_prefix @ str_nat n_json @ mismatch_infix @ str_nat n_pdf"

text \<open>
  Lines 145 to 165 of \<^verbatim>\<open>process_video_with_presentation\<close>, everything before
  the \<^verbatim>\<open>try\<close>: load the timeline, open the document, compare the counts, create the
  folder, rasterize. It returns the timeline, the folder and the page images.
\<close>

definition prepare ::
  "env \<Rightarrow> path \<Rightarrow> path \<Rightarrow> path \<Rightarrow> world
     \<Rightarrow> (error + entry list \<times> path \<times> path list) \<times> world" where
  "prepare e json_path presentation_path output_path w =
     (case json_slides e json_path of
        Inl err \<Rightarrow> (Inl err, w)
      | Inr slides_value \<Rightarrow>
     (case pdf_open e presentation_path of
        Some err \<Rightarrow> (Inl err, w)
      | None \<Rightarrow>
     (case slides_value of
        None \<Rightarrow> (Inl TypeError, w)
      | Some slides_data_list \<Rightarrow>
     (case pdf_num_pages e presentation_path of
        Inl err \<Rightarrow> (Inl err, w)
      | Inr num_pages \<Rightarrow>
      if length slides_data_list \<noteq> num_pages
        then (Inl (ValueError (mismatch_message (length slides_data_list) num_pages)), w)
      else
      (let temp_folder = os_path_dirname output_path in
      (case os_makedirs e temp_folder True w of
         (Some err, w1) \<Rightarrow> (Inl err, w1)
       | (None, w1) \<Rightarrow>
      (case convert_pdf_to_images e presentation_path temp_folder w1 of
         (Inl err, w2) \<Rightarrow> (Inl err, w2)
       | (Inr slide_image_paths, w2) \<Rightarrow>
           (Inr (slides_data_list, temp_folder, slide_image_paths), w2))))))))"

text \<open>The body of the \<^verbatim>\<open>try\<close>: the loop, then the concatenation.\<close>

definition try_block ::
  "env \<Rightarrow> path \<Rightarrow> path \<Rightarrow> path \<Rightarrow> entry list \<Rightarrow> path list \<Rightarrow> locals \<times> world
     \<Rightarrow> error option \<times> locals \<times> world" where
  "try_block e video_path output_path temp_folder slides_data_list slide_image_paths s =
     (case process_slides e temp_folder video_path slide_image_paths 0 slides_data_list s of
        (Some err, s') \<Rightarrow> (Some err, s')
      | (None, l, w) \<Rightarrow>
          (case concat_videos e (video_fragments l) output_path w of
             (r, w') \<Rightarrow> (r, l, w')))"

text \<open>The \<^verbatim>\<open>finally\<close> block; the handler of a failed removal logs a warning.\<close>

definition finally_block :: "env \<Rightarrow> locals \<times> world \<Rightarrow> locals \<times> world" where
  "finally_block e s =
     (case s of (l, w) \<Rightarrow>
      let inputs_txt_path = ''inputs.txt'';
          l' = (if os_path_exists e w inputs_txt_path then track inputs_txt_path l else l)
      in (l', remove_each Warned e (cycle_temp_files l') w))"

text \<open>
  \<^verbatim>\<open>process_video_with_presentation\<close>, with the final value of
  \<^verbatim>\<open>cycle_temp_files\<close> (the cleanup set) made visible: \<open>run_pipeline\<close> returns the
  exception that leaves the function (\<open>None\<close> for a normal return), the cleanup set that
  the \<^verbatim>\<open>finally\<close> block worked on (empty when the function is left before the
  \<^verbatim>\<open>try\<close>), and the world.
\<close>

definition run_pipeline ::
  "env \<Rightarrow> path \<Rightarrow> path \<Rightarrow> path \<Rightarrow> path \<Rightarrow> world \<Rightarrow> error option \<times> path list \<times> world" where
  "run_pipeline e json_path presentation_path video_path output_path w =
     (case prepare e json_path presentation_path output_path w of
        (Inl err, w') \<Rightarrow> (Some err, [], w')
      | (Inr (slides_data_list, temp_folder, slide_image_paths), w2) \<Rightarrow>
          (case try_block e video_path output_path temp_folder slides_data_list slide_image_paths
                  (\<lparr>video_fragments = [], cycle_temp_files = slide_image_paths\<rparr>, w2) of
             (r, s3) \<Rightarrow>
               (case finally_block e s3 of (l4, w4) \<Rightarrow> (r, cycle_temp_files l4, w4))))"

definition process_video_with_presentation ::
  "env \<Rightarrow> path \<Rightarrow> path \<Rightarrow> path \<Rightarrow> path \<Rightarrow> world \<Rightarrow> error option \<times> world" where
  "process_video_with_presentation e json_path presentation_path video_path output_path w =
     (case run_pipeline e json_path presentation_path video_path output_path w of
        (r, tracked, w') \<Rightarrow> (r, w'))"

subsection \<open>The task\<close>

definition UPLOADS_DIR :: path where
  "UPLOADS_DIR = ''uploads''"

record task_result =
  status :: string
  result_path :: path
  result_filename :: string

definition output_filename_of :: "string \<Rightarrow> string" where
  "output_filename_of request_id = ''processed_video_'' @ request_id @ ''.mp4''"

definition output_path_of :: "string \<Rightarrow> path" where
  "output_path_of request_id = os_path_join UPLOADS_DIR (output_filename_of request_id)"

text \<open>
  \<^verbatim>\<open>create_video_task\<close>; \<open>request_id\<close> is \<^verbatim>\<open>self.request.id\<close>. A failure of
  \<^verbatim>\<open>self.update_state\<close> is an exception inside the \<^verbatim>\<open>try\<close> like any other.
\<close>

definition create_video_task ::
  "env \<Rightarrow> string \<Rightarrow> path \<Rightarrow> path \<Rightarrow> path \<Rightarrow> world \<Rightarrow> (error + task_result) \<times> world" where
  "create_video_task e request_id json_path pres_path video_path w =
     (let output_filename = output_filename_of request_id;
          output_path = os_path_join UPLOADS_DIR output_filename;
          temp_files_to_clean = [json_path, pres_path, video_path, output_path]
      in case (if update_state_ok e
               then process_video_with_presentation e json_path pres_path video_path output_path
                      (w\<lparr>trace := trace w @ [UpdateState]\<rparr>)
               else (Some BackendError, w)) of
           (None, w1) \<Rightarrow>
             (Inr \<lparr>status = ''SUCCESS'', result_path = output_path,
                   result_filename = output_filename\<rparr>,
              cleanup_files e [json_path, pres_path, video_path] w1)
         | (Some err, w1) \<Rightarrow>
             (Inl err,
              cleanup_files e [json_path, pres_path, video_path]
                (cleanup_files e temp_files_to_clean (w1\<lparr>trace := trace w1 @ [TaskFailed err]\<rparr>))))"

subsection \<open>Notions used to state the properties\<close>

text \<open>The four artifacts of segment \<open>i\<close>, in the order in which the loop body creates them.\<close>

definition segment_paths :: "path \<Rightarrow> nat \<Rightarrow> path list" where
  "segment_paths temp_folder i =
     [speaker_cut_path temp_folder i, slide_vid_path temp_folder i,
      speaker_resized_path temp_folder i, combined_path temp_folder i]"

text \<open>
  The four steps of the loop body for segment \<open>i\<close>, in the order of the calls: each is
  the command line that the call builds, or the exception that building it raises.
\<close>

definition segment_steps ::
  "env \<Rightarrow> path \<Rightarrow> path \<Rightarrow> path \<Rightarrow> nat \<Rightarrow> jvalue \<Rightarrow> jvalue \<Rightarrow> jvalue \<Rightarrow> (error + cmd) list" where
  "segment_steps e temp_folder video_path slide_img_path i start end_t duration =
     [cut_video_cmd e video_path start end_t (speaker_cut_path temp_folder i),
      slide_to_video_cmd e slide_img_path duration (slide_vid_path temp_folder i),
      Inr (resize_video_cmd (speaker_cut_path temp_folder i) (speaker_resized_path temp_folder i)),
      Inr (combine_videos_cmd (slide_vid_path temp_folder i) (speaker_resized_path temp_folder i)
             (combined_path temp_folder i))]"

text \<open>The four command lines of segment \<open>i\<close> when the numbers print as \<open>start\<close>,
  \<open>end_t\<close> and \<open>duration\<close>.\<close>

definition segment_cmds ::
  "path \<Rightarrow> path \<Rightarrow> path \<Rightarrow> nat \<Rightarrow> string \<Rightarrow> string \<Rightarrow> string \<Rightarrow> cmd list" where
  "segment_cmds temp_folder video_path slide_img_path i start end_t duration =
     [cut_video_args video_path start end_t (speaker_cut_path temp_folder i),
      slide_to_video_args slide_img_path duration (slide_vid_path temp_folder i),
      resize_video_cmd (speaker_cut_path temp_folder i) (speaker_resized_path temp_folder i),
      combine_videos_cmd (slide_vid_path temp_folder i) (speaker_resized_path temp_folder i)
        (combined_path temp_folder i)]"

text \<open>The command lines among a list of steps.\<close>

fun cmds_of :: "(error + cmd) list \<Rightarrow> cmd list" where
  "cmds_of [] = []"
| "cmds_of (Inr c # xs) = c # cmds_of xs"
| "cmds_of (Inl err # xs) = cmds_of xs"

text \<open>
  Running a list of steps one after the other, each output appended to
  \<^verbatim>\<open>cycle_temp_files\<close> after its command has succeeded: the pattern of the loop body
  (\<open>process_segment_eq\<close> below shows that the body is an instance).
\<close>

fun run_tracked :: "env \<Rightarrow> (error + cmd) list \<Rightarrow> locals \<times> world \<Rightarrow> error option \<times> locals \<times> world" where
  "run_tracked e [] s = (None, s)"
| "run_tracked e (Inl err # xs) s = (Some err, s)"
| "run_tracked e (Inr c # xs) s =
     (case subprocess_run e c (snd s) of
        (Some err, w1) \<Rightarrow> (Some err, fst s, w1)
      | (None, w1) \<Rightarrow> run_tracked e xs (track (last c) (fst s), w1))"

text \<open>Projections of a trace: the commands run with how they ended, the files written,
  the page images saved, the paths removed.\<close>

fun runs :: "event list \<Rightarrow> (cmd \<times> status) list" where
  "runs [] = []"
| "runs (Run c st # evs) = (c, st) # runs evs"
| "runs (ev # evs) = runs evs"

fun writes :: "event list \<Rightarrow> (path \<times> string) list" where
  "writes [] = []"
| "writes (WriteFile p t # evs) = (p, t) # writes evs"
| "writes (ev # evs) = writes evs"

fun saved :: "event list \<Rightarrow> path list" where
  "saved [] = []"
| "saved (SavePage p # evs) = p # saved evs"
| "saved (ev # evs) = saved evs"

fun removed :: "event list \<Rightarrow> path list" where
  "removed [] = []"
| "removed (Remove p # evs) = p # removed evs"
| "removed (ev # evs) = removed evs"

text \<open>The steps of one entry of the timeline (none when the body raises before the
  first call), and the command lines of the whole loop from index \<open>i\<close> on.\<close>

definition entry_steps :: "env \<Rightarrow> path \<Rightarrow> path \<Rightarrow> path list \<Rightarrow> nat \<Rightarrow> entry \<Rightarrow> (error + cmd) list" where
  "entry_steps e temp video imgs i x =
     (case segment_inputs e (length imgs) i x of
        Inl err \<Rightarrow> []
      | Inr (start, end_t, duration) \<Rightarrow>
          segment_steps e temp video (imgs ! i) i start end_t duration)"

fun loop_cmds :: "env \<Rightarrow> path \<Rightarrow> path \<Rightarrow> path list \<Rightarrow> nat \<Rightarrow> entry list \<Rightarrow> cmd list" where
  "loop_cmds e temp video imgs i [] = []"
| "loop_cmds e temp video imgs i (x # rest) =
     cmds_of (entry_steps e temp video imgs i x) @ loop_cmds e temp video imgs (Suc i) rest"

definition ok_events :: "cmd list \<Rightarrow> event list" where
  "ok_events cs = map (\<lambda>c. Run c (Exit 0)) cs"

text \<open>The outputs of the commands of a list of runs that exited with status 0.\<close>

definition produced :: "(cmd \<times> status) list \<Rightarrow> path list" where
  "produced rs = map (\<lambda>x. last (fst x)) (filter (\<lambda>x. snd x = Exit 0) rs)"

text \<open>The artifact paths for a document of \<open>pages\<close> pages and a timeline of \<open>n\<close> segments.\<close>

definition planned_paths :: "path \<Rightarrow> nat \<Rightarrow> nat \<Rightarrow> path list" where
  "planned_paths temp_folder pages n =
     map (slide_image_path temp_folder) [0..<pages] @
     concat (map (segment_paths temp_folder) [0..<n])"

text \<open>
  Reading a manifest the way its quotes ask for: the lines of a text, and in a line the
  path that starts after \<^verbatim>\<open>file '\<close> and ends before the next single quote.
\<close>

fun split_lines :: "string \<Rightarrow> string \<Rightarrow> string list" where
  "split_lines acc [] = (if acc = [] then [] else [acc])"
| "split_lines acc (c # cs) =
     (if c = CHR 0x0A then acc # split_lines [] cs else split_lines (acc @ [c]) cs)"

definition quoted_path :: "string \<Rightarrow> path" where
  "quoted_path line = takeWhile (\<lambda>c. c \<noteq> CHR 0x27) (drop 6 line)"

definition manifest_paths :: "string \<Rightarrow> path list" where
  "manifest_paths text = map quoted_path (split_lines [] text)"

subsection \<open>A concrete environment\<close>

text \<open>
  A \<open>resolve\<close> for a file system without links: the components of the path, with empty
  components and \<^verbatim>\<open>.\<close> dropped and \<^verbatim>\<open>..\<close> resolved, joined by single slashes.
\<close>

fun split_slash :: "string \<Rightarrow> string \<Rightarrow> string list" where
  "split_slash acc [] = [acc]"
| "split_slash acc (c # cs) =
     (if c = CHR ''/'' then acc # split_slash [] cs else split_slash (acc @ [c]) cs)"

definition push_component :: "string list \<Rightarrow> string \<Rightarrow> string list" where
  "push_component st c =
     (if c = [] \<or> c = ''.'' then st
      else if c = ''..'' then butlast st
      else st @ [c])"

fun join_slash :: "string list \<Rightarrow> string" where
  "join_slash [] = []"
| "join_slash [c] = c"
| "join_slash (c # cs) = c @ ''/'' @ join_slash cs"

definition normal_path :: "path \<Rightarrow> path" where
  "normal_path p =
     (if p \<noteq> [] \<and> hd p = CHR ''/'' then ''/'' else []) @
     join_slash (foldl push_component [] (split_slash [] p))"

text \<open>
  An environment for one timeline and one document in which the file system never refuses
  anything and a command ends the way \<open>exit_status\<close> says, and a world that holds the three
  uploaded files. Of the floats it knows one subtraction.
\<close>

definition demo_float_sub :: "pyfloat \<Rightarrow> pyfloat \<Rightarrow> pyfloat" where
  "demo_float_sub a b =
     (if a = PyFloat ''12.25'' \<and> b = PyFloat ''5.5'' then PyFloat ''6.75'' else PyFloat ''nan'')"

definition demo_float_of_int :: "int \<Rightarrow> pyfloat option" where
  "demo_float_of_int i = Some (PyFloat (str_int i @ ''.0''))"

definition default_limit :: nat where
  "default_limit = 4300"

definition default_message :: string where
  "default_message =
     ''Exceeds the limit (4300 digits) for integer string conversion; '' @
     ''use sys.set_int_max_str_digits() to increase the limit''"

definition demo_env :: "entry list \<Rightarrow> nat \<Rightarrow> (cmd \<Rightarrow> status) \<Rightarrow> env" where
  "demo_env sl pages exit_status =
     \<lparr>resolve = normal_path, json_slides = (\<lambda>p. Inr (Some sl)), pdf_open = (\<lambda>p. None),
      pdf_num_pages = (\<lambda>p. Inr pages),
      convert_from_path = (\<lambda>p. Inr pages), save_ok = (\<lambda>p. True), makedirs_ok = (\<lambda>p. True),
      open_write_ok = (\<lambda>p. True), ffmpeg = (\<lambda>c fs. exit_status c), leaves_partial = (\<lambda>c. False),
      remove_ok = (\<lambda>p. True), update_state_ok = True,
      float_sub = demo_float_sub, float_of_int = demo_float_of_int,
      int_max_str_digits = default_limit, digits_message = default_message\<rparr>"

definition all_succeed :: "cmd \<Rightarrow> status" where
  "all_succeed c = Exit 0"

definition fail_at :: "path \<Rightarrow> cmd \<Rightarrow> status" where
  "fail_at output c = (if last c = output then Exit 1 else Exit 0)"

definition one_slide :: "entry list" where
  "one_slide =
     [Object \<lparr>sd_title = Some (JString ''Intro''), sd_start = Some (JInt 0), sd_end = Some (JInt 5)\<rparr>]"

definition demo_slides :: "entry list" where
  "demo_slides =
     [Object \<lparr>sd_title = Some (JString ''Intro''), sd_start = Some (JInt 0), sd_end = Some (JInt 5)\<rparr>,
      Object \<lparr>sd_title = None, sd_start = Some (JInt 5), sd_end = Some (JInt 12)\<rparr>]"

definition float_slides :: "entry list" where
  "float_slides =
     [Object \<lparr>sd_title = None, sd_start = Some (JInt 0), sd_end = Some (JFloat (PyFloat ''5.5''))\<rparr>,
      Object \<lparr>sd_title = None, sd_start = Some (JFloat (PyFloat ''5.5'')),
              sd_end = Some (JFloat (PyFloat ''12.25''))\<rparr>]"

text \<open>
  The names of a job as \<^verbatim>\<open>main.py\<close> makes them: the uploads are saved as
  \<^verbatim>\<open>uploads/<uuid>_<filename>\<close>, and the task id is a UUID of its own.
\<close>

definition upload_id :: string where
  "upload_id = ''9b2e4d17-5c3a-4f68-8e21-7d6c5b4a3f10''"

definition demo_json :: path where
  "demo_json = ''uploads/'' @ upload_id @ ''_timeline.json''"

definition demo_pdf :: path where
  "demo_pdf = ''uploads/'' @ upload_id @ ''_slides.pdf''"

definition demo_video :: path where
  "demo_video = ''uploads/'' @ upload_id @ ''_talk.mp4''"

definition demo_id :: string where
  "demo_id = ''3f0c6a1e-8b7d-4e2a-9c55-0a1b2c3d4e5f''"

definition demo_world :: world where
  "demo_world = \<lparr>files = {demo_json, demo_pdf, demo_video}, dirs = {''uploads''}, trace = []\<rparr>"

text \<open>An operating system that refuses to remove the narration.\<close>

definition keep_narration :: "path \<Rightarrow> bool" where
  "keep_narration p = (p \<noteq> demo_video)"

text \<open>The largest integer that \<^verbatim>\<open>str\<close> prints under the default limit: 4300 digits 9.\<close>

definition max_printable :: int where
  "max_printable = 10 ^ default_limit - 1"

section \<open>Properties\<close>

subsection \<open>Traces and commands\<close>

lemma runs_append [simp]: "runs (xs @ ys) = runs xs @ runs ys"
  by (induction xs rule: runs.induct) auto

lemma writes_append [simp]: "writes (xs @ ys) = writes xs @ writes ys"
  by (induction xs rule: writes.induct) auto

lemma saved_append [simp]: "saved (xs @ ys) = saved xs @ saved ys"
  by (induction xs rule: saved.induct) auto

lemma removed_append [simp]: "removed (xs @ ys) = removed xs @ removed ys"
  by (induction xs rule: removed.induct) auto

lemma ok_events_simps [simp]:
  "ok_events [] = []"
  "ok_events (c # cs) = Run c (Exit 0) # ok_events cs"
  "ok_events (cs @ ds) = ok_events cs @ ok_events ds"
  by (simp_all add: ok_events_def)

lemma proj_ok_events [simp]:
  "runs (ok_events cs) = map (\<lambda>c. (c, Exit 0)) cs"
  "writes (ok_events cs) = []"
  "saved (ok_events cs) = []"
  "removed (ok_events cs) = []"
  by (induction cs) simp_all

lemma produced_simps [simp]:
  "produced [] = []"
  "produced (rs @ rs') = produced rs @ produced rs'"
  "produced (map (\<lambda>c. (c, Exit 0)) cs) = map last cs"
  "st \<noteq> Exit 0 \<Longrightarrow> produced [(c, st)] = []"
  by (simp_all add: produced_def comp_def)

lemma last_cmds [simp]:
  "last (cut_video_args v s t out) = out"
  "last (slide_to_video_args img d out) = out"
  "last (resize_video_cmd a out) = out"
  "last (combine_videos_cmd a b out) = out"
  "last (concat_videos_cmd out) = out"
  by (simp_all add: cut_video_args_def slide_to_video_args_def resize_video_cmd_def
      combine_videos_cmd_def concat_videos_cmd_def)

lemma map_last_segment_cmds [simp]:
  "map last (segment_cmds temp v img i s t d) = segment_paths temp i"
  by (simp add: segment_cmds_def segment_paths_def)

lemma length_segment_cmds [simp]: "length (segment_cmds temp v img i s t d) = 4"
  by (simp add: segment_cmds_def)

lemma length_segment_steps [simp]: "length (segment_steps e temp v img i s t d) = 4"
  by (simp add: segment_steps_def)

lemma cmds_of_map_Inr [simp]: "cmds_of (map Inr cs) = cs"
  by (induction cs) simp_all

lemma cmds_of_append [simp]: "cmds_of (xs @ ys) = cmds_of xs @ cmds_of ys"
  by (induction xs rule: cmds_of.induct) simp_all

lemma cut_video_cmd_Inr:
  "cut_video_cmd e v s t out = Inr c \<longleftrightarrow>
     (\<exists>ss st. py_str e s = Inr ss \<and> py_str e t = Inr st \<and> c = cut_video_args v ss st out)"
  by (auto simp: cut_video_cmd_def split: sum.splits)

lemma slide_to_video_cmd_Inr:
  "slide_to_video_cmd e img d out = Inr c \<longleftrightarrow>
     (\<exists>sd. py_str e d = Inr sd \<and> c = slide_to_video_args img sd out)"
  by (auto simp: slide_to_video_cmd_def split: sum.splits)

lemma py_str_Inl: "py_str e v = Inl err \<Longrightarrow> err = ValueError (digits_message e)"
  by (auto simp: py_str_def split: jvalue.splits pyfloat.splits option.splits if_splits)

lemma cut_video_cmd_Inl: "cut_video_cmd e v s t out = Inl err \<Longrightarrow> err = ValueError (digits_message e)"
  by (auto simp: cut_video_cmd_def split: sum.splits dest: py_str_Inl)

lemma slide_to_video_cmd_Inl:
  "slide_to_video_cmd e img d out = Inl err \<Longrightarrow> err = ValueError (digits_message e)"
  by (auto simp: slide_to_video_cmd_def split: sum.splits dest: py_str_Inl)

lemma segment_steps_printed:
  assumes "py_str e s = Inr ss" and "py_str e t = Inr st" and "py_str e d = Inr sd"
  shows "segment_steps e temp v img i s t d = map Inr (segment_cmds temp v img i ss st sd)"
  using assms by (simp add: segment_steps_def segment_cmds_def cut_video_cmd_def
      slide_to_video_cmd_def)

lemma segment_steps_Inl:
  assumes "n < 4" and "segment_steps e temp v img i s t d ! n = Inl err"
  shows "err = ValueError (digits_message e)"
proof -
  from assms(1) have "n = 0 \<or> n = 1 \<or> n = 2 \<or> n = 3" by arith
  with assms(2) show ?thesis
    by (auto simp: segment_steps_def dest: cut_video_cmd_Inl slide_to_video_cmd_Inl)
qed

lemma process_segment_eq:
  "process_segment e temp video imgs i x (l, w) =
     (case segment_inputs e (length imgs) i x of
        Inl err \<Rightarrow> (Some err, l, w)
      | Inr (start, end_t, duration) \<Rightarrow>
     (case run_tracked e (segment_steps e temp video (imgs ! i) i start end_t duration) (l, w) of
        (Some err, s') \<Rightarrow> (Some err, s')
      | (None, l', w') \<Rightarrow>
          (None, l'\<lparr>video_fragments := video_fragments l' @ [combined_path temp i]\<rparr>, w')))"
  by (simp add: process_segment_def segment_steps_def cut_video_def slide_to_video_def
      resize_video_def combine_videos_def run_step_def track_def Let_def
      resize_video_cmd_def combine_videos_cmd_def
      cut_video_cmd_def slide_to_video_cmd_def cut_video_args_def slide_to_video_args_def
      split: option.splits prod.splits sum.splits)

lemma segment_inputs_Inr:
  "segment_inputs e n i x = Inr (start, end_t, duration) \<longleftrightarrow>
     (\<exists>sd. x = Object sd \<and> sd_start sd = Some start \<and> sd_end sd = Some end_t \<and>
        (case sd_title sd of None \<Rightarrow> True | Some v \<Rightarrow> \<exists>title. py_str e v = Inr title) \<and>
        py_sub e end_t start = Inr duration \<and> i < n)"
  by (auto simp: segment_inputs_def split: entry.splits option.splits sum.splits)

lemma segment_inputs_Inl:
  "segment_inputs e n i x = Inl err \<Longrightarrow>
     err \<in> {AttributeError, ValueError (digits_message e), KeyError ''start'', KeyError ''end'',
            TypeError, OverflowError, IndexError}"
  by (auto simp: segment_inputs_def py_sub_def to_float_def
      split: entry.splits option.splits sum.splits if_splits dest: py_str_Inl)

subsection \<open>Removal\<close>

lemma remove_each_files:
  "files (remove_each r e ps w) = files w - {f \<in> resolve e ` set ps. remove_ok e f}"
  by (induction ps arbitrary: w) (auto simp: os_remove_def os_path_exists_def)

lemma remove_each_dirs: "dirs (remove_each r e ps w) = dirs w"
  by (induction ps arbitrary: w) (auto simp: os_remove_def os_path_exists_def)

lemma remove_each_trace:
  "\<exists>evs. trace (remove_each r e ps w) = trace w @ evs \<and> set evs \<subseteq> Remove ` set ps \<union> r ` set ps"
proof (induction ps arbitrary: w)
  case Nil
  show ?case by simp
next
  case (Cons p ps)
  let ?w1 = "(if os_path_exists e w p
        then (case os_remove e p w of
                (None, w') \<Rightarrow> w'
              | (Some err, w') \<Rightarrow> w'\<lparr>trace := trace w' @ [r p]\<rparr>)
        else w)"
  have "\<exists>evs1. trace ?w1 = trace w @ evs1 \<and> set evs1 \<subseteq> {Remove p, r p}"
    by (auto simp: os_remove_def)
  then obtain evs1 where 1: "trace ?w1 = trace w @ evs1" "set evs1 \<subseteq> {Remove p, r p}"
    by blast
  from Cons.IH [of ?w1] obtain evs2 where
    2: "trace (remove_each r e ps ?w1) = trace ?w1 @ evs2" "set evs2 \<subseteq> Remove ` set ps \<union> r ` set ps"
    by blast
  have "trace (remove_each r e (p # ps) w) = trace w @ (evs1 @ evs2)"
    using 1 2 by simp
  moreover have "set (evs1 @ evs2) \<subseteq> Remove ` set (p # ps) \<union> r ` set (p # ps)"
    using 1 2 by auto
  ultimately show ?case by blast
qed

lemma remove_each_reports:
  "p \<in> set ps \<Longrightarrow> resolve e p \<in> files w \<Longrightarrow> \<not> remove_ok e (resolve e p) \<Longrightarrow>
     r p \<in> set (trace (remove_each r e ps w)) \<and> resolve e p \<in> files (remove_each r e ps w)"
proof (induction ps arbitrary: w)
  case Nil
  then show ?case by simp
next
  case (Cons q qs)
  let ?w1 = "(if os_path_exists e w q
        then (case os_remove e q w of
                (None, w') \<Rightarrow> w'
              | (Some err, w') \<Rightarrow> w'\<lparr>trace := trace w' @ [r q]\<rparr>)
        else w)"
  have files1: "resolve e p \<in> files ?w1"
    using Cons.prems by (auto simp: os_remove_def)
  have rest: "remove_each r e (q # qs) w = remove_each r e qs ?w1"
    by simp
  show ?case
  proof (cases "p = q")
    case True
    then have "r p \<in> set (trace ?w1)"
      using Cons.prems by (simp add: os_remove_def os_path_exists_def)
    moreover obtain evs where "trace (remove_each r e qs ?w1) = trace ?w1 @ evs"
      using remove_each_trace by blast
    ultimately have "r p \<in> set (trace (remove_each r e qs ?w1))"
      by simp
    moreover have "resolve e p \<in> files (remove_each r e qs ?w1)"
      using files1 Cons.prems by (simp add: remove_each_files)
    ultimately show ?thesis using rest by simp
  next
    case False
    then have "p \<in> set qs" using Cons.prems by simp
    from Cons.IH [OF this files1 Cons.prems(3)] show ?thesis
      using rest by simp
  qed
qed

subsection \<open>Commands\<close>

lemma proc_error_eq:
  "proc_error st c = CalledProcessError rc c' \<longleftrightarrow> st = Exit rc \<and> c' = c"
  by (auto simp: proc_error_def split: status.splits)

lemma subprocess_run_None:
  "subprocess_run e c w = (None, w') \<Longrightarrow>
     w' = w\<lparr>files := insert (resolve e (last c)) (files w), trace := trace w @ [Run c (Exit 0)]\<rparr>"
  by (auto simp: subprocess_run_def Let_def split: if_splits)

lemma subprocess_run_Some:
  "subprocess_run e c w = (Some err, w') \<Longrightarrow>
     \<exists>st. st \<noteq> Exit 0 \<and> err = proc_error st c \<and> trace w' = trace w @ [Run c st] \<and>
          dirs w' = dirs w"
  by (auto simp: subprocess_run_def Let_def split: if_splits)

lemma run_tracked_shape:
  "run_tracked e xs (l, w) = (r, l', w') \<Longrightarrow>
     \<exists>cs tail. length cs \<le> length xs \<and> take (length cs) xs = map Inr cs \<and>
       trace w' = trace w @ ok_events cs @ tail \<and>
       cycle_temp_files l' = cycle_temp_files l @ map last cs \<and>
       video_fragments l' = video_fragments l \<and> dirs w' = dirs w \<and>
       ((r = None \<and> length cs = length xs \<and> tail = []) \<or>
        (length cs < length xs \<and>
         ((\<exists>err. xs ! length cs = Inl err \<and> r = Some err \<and> tail = []) \<or>
          (\<exists>c st. xs ! length cs = Inr c \<and> st \<noteq> Exit 0 \<and> tail = [Run c st] \<and>
                  r = Some (proc_error st c)))))"
proof (induction xs arbitrary: l w)
  case Nil
  then show ?case by auto
next
  case (Cons x xs)
  show ?case
  proof (cases x)
    case (Inl err)
    with Cons.prems have "r = Some err" "l' = l" "w' = w" by simp_all
    with Inl show ?thesis
      by (intro exI [of _ "[]"]) simp
  next
    case (Inr c)
    show ?thesis
    proof (cases "subprocess_run e c w")
      case (Pair r1 w1)
      show ?thesis
      proof (cases r1)
        case None
        with Pair have w1: "w1 = w\<lparr>files := insert (resolve e (last c)) (files w),
            trace := trace w @ [Run c (Exit 0)]\<rparr>"
          using subprocess_run_None by simp
        from Cons.prems Pair None Inr have "run_tracked e xs (track (last c) l, w1) = (r, l', w')"
          by simp
        from Cons.IH [OF this] obtain cs tail where k:
          "length cs \<le> length xs" "take (length cs) xs = map Inr cs"
          "trace w' = trace w1 @ ok_events cs @ tail"
          "cycle_temp_files l' = cycle_temp_files (track (last c) l) @ map last cs"
          "video_fragments l' = video_fragments (track (last c) l)" "dirs w' = dirs w1"
          "(r = None \<and> length cs = length xs \<and> tail = []) \<or>
           (length cs < length xs \<and>
            ((\<exists>err. xs ! length cs = Inl err \<and> r = Some err \<and> tail = []) \<or>
             (\<exists>c st. xs ! length cs = Inr c \<and> st \<noteq> Exit 0 \<and> tail = [Run c st] \<and>
                  r = Some (proc_error st c))))"
          by blast
        show ?thesis
          apply (rule exI [of _ "c # cs"], rule exI [of _ tail])
          using k w1 Inr by (auto simp: track_def)
      next
        case (Some err)
        with Pair obtain st where st: "st \<noteq> Exit 0" "err = proc_error st c"
          "trace w1 = trace w @ [Run c st]" "dirs w1 = dirs w"
          using subprocess_run_Some by blast
        from Cons.prems Pair Some Inr have "r = Some err" "l' = l" "w' = w1" by simp_all
        then show ?thesis
          apply -
          apply (rule exI [of _ "[]"], rule exI [of _ "[Run c st]"])
          using st Inr by simp
      qed
    qed
  qed
qed

lemma runs_none: "(\<And>c st. Run c st \<notin> set evs) \<Longrightarrow> runs evs = []"
  by (induction evs rule: runs.induct) auto

lemma writes_none: "(\<And>p t. WriteFile p t \<notin> set evs) \<Longrightarrow> writes evs = []"
  by (induction evs rule: writes.induct) auto

lemma saved_none: "(\<And>p. SavePage p \<notin> set evs) \<Longrightarrow> saved evs = []"
  by (induction evs rule: saved.induct) auto

lemma removed_set: "set (removed evs) = {p. Remove p \<in> set evs}"
  by (induction evs rule: removed.induct) auto

lemma saved_map_SavePage [simp]: "saved (map SavePage ps) = ps"
  by (induction ps) simp_all

lemma proj_map_SavePage [simp]:
  "runs (map SavePage ps) = []" "writes (map SavePage ps) = []" "removed (map SavePage ps) = []"
  by (induction ps) simp_all

subsection \<open>The loop body and the loop\<close>

lemma segment_steps_last:
  assumes "n < 4" and "segment_steps e temp v img i s t d ! n = Inr c"
  shows "last c = segment_paths temp i ! n"
proof -
  from assms(1) have "n = 0 \<or> n = 1 \<or> n = 2 \<or> n = 3" by arith
  with assms(2) show ?thesis
    by (auto simp: segment_steps_def segment_paths_def cut_video_cmd_Inr slide_to_video_cmd_Inr)
qed

lemma segment_steps_prefix_last:
  assumes "length cs \<le> 4"
    and "take (length cs) (segment_steps e temp v img i s t d) = map Inr cs"
  shows "map last cs = take (length cs) (segment_paths temp i)"
proof (rule nth_equalityI)
  show "length (map last cs) = length (take (length cs) (segment_paths temp i))"
    using assms(1) by (simp add: segment_paths_def)
next
  fix j assume "j < length (map last cs)"
  then have j: "j < length cs" by simp
  with assms(1) have j4: "j < 4" by simp
  have "take (length cs) (segment_steps e temp v img i s t d) ! j = map Inr cs ! j"
    using assms(2) by simp
  then have "segment_steps e temp v img i s t d ! j = Inr (cs ! j)"
    using j by simp
  from segment_steps_last [OF j4 this] j
  show "map last cs ! j = take (length cs) (segment_paths temp i) ! j"
    by simp
qed

lemma process_segment_shape:
  assumes "process_segment e temp video imgs i x (l, w) = (r, l', w')"
  shows "\<exists>cs tail. trace w' = trace w @ ok_events cs @ tail \<and>
       cycle_temp_files l' = cycle_temp_files l @ map last cs \<and>
       set (map last cs) \<subseteq> set (segment_paths temp i) \<and> dirs w' = dirs w \<and>
       (tail = [] \<or> (\<exists>c st. st \<noteq> Exit 0 \<and> tail = [Run c st] \<and> r = Some (proc_error st c)))"
proof (cases "segment_inputs e (length imgs) i x")
  case (Inl err)
  then have "w' = w \<and> l' = l"
    using assms by (auto simp: process_segment_eq)
  then show ?thesis
    by (intro exI [of _ "[]"]) simp
next
  case (Inr y)
  obtain s t d where y: "y = (s, t, d)" by (cases y) auto
  let ?xs = "segment_steps e temp video (imgs ! i) i s t d"
  obtain r1 l1 w1 where rt: "run_tracked e ?xs (l, w) = (r1, l1, w1)"
    by (cases "run_tracked e ?xs (l, w)") auto
  have res: "r = r1" "w' = w1" "cycle_temp_files l' = cycle_temp_files l1"
    using assms Inr y rt by (auto simp: process_segment_eq split: option.splits)
  from run_tracked_shape [OF rt] obtain cs tail where k:
    "length cs \<le> length ?xs" "take (length cs) ?xs = map Inr cs"
    "trace w1 = trace w @ ok_events cs @ tail"
    "cycle_temp_files l1 = cycle_temp_files l @ map last cs"
    "dirs w1 = dirs w"
    "(r1 = None \<and> length cs = length ?xs \<and> tail = []) \<or>
        (length cs < length ?xs \<and>
         ((\<exists>err. ?xs ! length cs = Inl err \<and> r1 = Some err \<and> tail = []) \<or>
          (\<exists>c st. ?xs ! length cs = Inr c \<and> st \<noteq> Exit 0 \<and> tail = [Run c st] \<and>
                  r1 = Some (proc_error st c))))"
    by blast
  from k(1) have le: "length cs \<le> 4" by simp
  have "map last cs = take (length cs) (segment_paths temp i)"
    by (rule segment_steps_prefix_last [OF le k(2)])
  then have sub: "set (map last cs) \<subseteq> set (segment_paths temp i)"
    by (metis set_take_subset)
  show ?thesis
    apply (rule exI [of _ cs], rule exI [of _ tail])
    using k res sub by auto
qed

lemma process_segment_None:
  assumes "process_segment e temp video imgs i x (l, w) = (None, l', w')"
  shows "\<exists>sd start end_t duration ss se sdur.
       x = Object sd \<and> sd_start sd = Some start \<and> sd_end sd = Some end_t \<and>
       py_sub e end_t start = Inr duration \<and> i < length imgs \<and>
       py_str e start = Inr ss \<and> py_str e end_t = Inr se \<and> py_str e duration = Inr sdur \<and>
       entry_steps e temp video imgs i x =
         map Inr (segment_cmds temp video (imgs ! i) i ss se sdur) \<and>
       trace w' = trace w @ ok_events (segment_cmds temp video (imgs ! i) i ss se sdur) \<and>
       cycle_temp_files l' = cycle_temp_files l @ segment_paths temp i \<and>
       video_fragments l' = video_fragments l @ [combined_path temp i] \<and> dirs w' = dirs w"
proof -
  from assms obtain s t d where inp: "segment_inputs e (length imgs) i x = Inr (s, t, d)"
    by (auto simp: process_segment_eq split: sum.splits)
  then obtain sd where sd: "x = Object sd" "sd_start sd = Some s" "sd_end sd = Some t"
    "py_sub e t s = Inr d" "i < length imgs"
    by (auto simp: segment_inputs_Inr)
  let ?xs = "segment_steps e temp video (imgs ! i) i s t d"
  obtain r1 l1 w1 where rt: "run_tracked e ?xs (l, w) = (r1, l1, w1)"
    by (cases "run_tracked e ?xs (l, w)") auto
  have res: "r1 = None" "w' = w1"
    "l' = l1\<lparr>video_fragments := video_fragments l1 @ [combined_path temp i]\<rparr>"
    using assms inp rt by (auto simp: process_segment_eq split: option.splits)
  from run_tracked_shape [OF rt] res(1) obtain cs where k:
    "length cs = length ?xs" "take (length cs) ?xs = map Inr cs"
    "trace w1 = trace w @ ok_events cs"
    "cycle_temp_files l1 = cycle_temp_files l @ map last cs"
    "video_fragments l1 = video_fragments l" "dirs w1 = dirs w"
    by auto
  from k(1) have l4: "length cs = 4" by simp
  from k(1,2) have all: "?xs = map Inr cs" by simp
  have "?xs ! 0 = Inr (cs ! 0)" "?xs ! 1 = Inr (cs ! 1)"
    unfolding all using l4 by simp_all
  then obtain ss se sdur where pr: "py_str e s = Inr ss" "py_str e t = Inr se"
    "py_str e d = Inr sdur"
    by (auto simp: segment_steps_def cut_video_cmd_Inr slide_to_video_cmd_Inr)
  from segment_steps_printed [OF pr] all
  have cs: "cs = segment_cmds temp video (imgs ! i) i ss se sdur"
    by (simp add: inj_map_eq_map)
  have es: "entry_steps e temp video imgs i x =
      map Inr (segment_cmds temp video (imgs ! i) i ss se sdur)"
    using inp segment_steps_printed [OF pr] by (simp add: entry_steps_def)
  show ?thesis
    apply (rule exI [of _ sd], rule exI [of _ s], rule exI [of _ t], rule exI [of _ d],
        rule exI [of _ ss], rule exI [of _ se], rule exI [of _ sdur])
    using sd pr es k res cs by simp
qed

lemma process_segment_CPE:
  assumes "process_segment e temp video imgs i x (l, w) = (Some (CalledProcessError rc c), l', w')"
  shows "\<exists>sd start end_t duration n.
     x = Object sd \<and> sd_start sd = Some start \<and> sd_end sd = Some end_t \<and>
     py_sub e end_t start = Inr duration \<and> i < length imgs \<and> n < 4 \<and> rc \<noteq> 0 \<and>
     segment_steps e temp video (imgs ! i) i start end_t duration ! n = Inr c \<and>
     take n (segment_steps e temp video (imgs ! i) i start end_t duration) =
       map Inr (cmds_of (take n (segment_steps e temp video (imgs ! i) i start end_t duration))) \<and>
     trace w' = trace w @
       ok_events (cmds_of (take n (segment_steps e temp video (imgs ! i) i start end_t duration))) @
       [Run c (Exit rc)] \<and>
     cycle_temp_files l' = cycle_temp_files l @
       map last (cmds_of (take n (segment_steps e temp video (imgs ! i) i start end_t duration)))"
proof -
  have "segment_inputs e (length imgs) i x \<noteq> Inl (CalledProcessError rc c)"
    using segment_inputs_Inl [of e "length imgs" i x "CalledProcessError rc c"] by auto
  with assms obtain s t d where inp: "segment_inputs e (length imgs) i x = Inr (s, t, d)"
    by (auto simp: process_segment_eq split: sum.splits)
  then obtain sd where sd: "x = Object sd" "sd_start sd = Some s" "sd_end sd = Some t"
    "py_sub e t s = Inr d" "i < length imgs"
    by (auto simp: segment_inputs_Inr)
  let ?xs = "segment_steps e temp video (imgs ! i) i s t d"
  obtain r1 l1 w1 where rt: "run_tracked e ?xs (l, w) = (r1, l1, w1)"
    by (cases "run_tracked e ?xs (l, w)") auto
  have res: "r1 = Some (CalledProcessError rc c)" "w' = w1" "l' = l1"
    using assms inp rt by (auto simp: process_segment_eq split: option.splits)
  from run_tracked_shape [OF rt] res(1) obtain cs tail where k:
    "length cs < length ?xs" "take (length cs) ?xs = map Inr cs"
    "trace w1 = trace w @ ok_events cs @ tail"
    "cycle_temp_files l1 = cycle_temp_files l @ map last cs"
    "(\<exists>err. ?xs ! length cs = Inl err \<and> r1 = Some err \<and> tail = []) \<or>
     (\<exists>c st. ?xs ! length cs = Inr c \<and> st \<noteq> Exit 0 \<and> tail = [Run c st] \<and>
                  r1 = Some (proc_error st c))"
    by auto
  from k(1) have n4: "length cs < 4" by simp
  have noinl: "\<not> (\<exists>err. ?xs ! length cs = Inl err \<and> r1 = Some err \<and> tail = [])"
  proof
    assume "\<exists>err. ?xs ! length cs = Inl err \<and> r1 = Some err \<and> tail = []"
    with res(1) have "?xs ! length cs = Inl (CalledProcessError rc c)" by auto
    from segment_steps_Inl [OF n4 this] show False by simp
  qed
  with k(5) obtain c' st where f: "?xs ! length cs = Inr c'" "st \<noteq> Exit 0" "tail = [Run c' st]"
    "r1 = Some (proc_error st c')"
    by blast
  from f(4) res(1) have "proc_error st c' = CalledProcessError rc c" by simp
  then have eq: "st = Exit rc" "c' = c"
    by (simp_all add: proc_error_eq)
  with f(2) have rc: "rc \<noteq> 0" by (simp add: zero_int_def)
  have co: "cmds_of (take (length cs) ?xs) = cs"
    using k(2) by simp
  show ?thesis
    apply (rule exI [of _ sd], rule exI [of _ s], rule exI [of _ t], rule exI [of _ d],
        rule exI [of _ "length cs"])
    using sd n4 rc f(1,3) eq k(2,3,4) res(2,3) co by simp
qed

lemma process_slides_append:
  "process_slides e temp video imgs i (xs @ ys) s =
     (case process_slides e temp video imgs i xs s of
        (Some err, s') \<Rightarrow> (Some err, s')
      | (None, s') \<Rightarrow> process_slides e temp video imgs (i + length xs) ys s')"
  by (induction xs arbitrary: i s) (auto split: prod.splits option.splits)

lemma process_slides_shape:
  "process_slides e temp video imgs i sds (l, w) = (r, l', w') \<Longrightarrow>
     \<exists>cs tail. trace w' = trace w @ ok_events cs @ tail \<and>
       cycle_temp_files l' = cycle_temp_files l @ map last cs \<and>
       set (map last cs) \<subseteq> (\<Union>j\<in>{i..<i + length sds}. set (segment_paths temp j)) \<and>
       dirs w' = dirs w \<and>
       (tail = [] \<or> (\<exists>c st. st \<noteq> Exit 0 \<and> tail = [Run c st] \<and> r = Some (proc_error st c)))"
proof (induction sds arbitrary: i l w)
  case Nil
  then show ?case by (intro exI [of _ "[]"]) auto
next
  case (Cons sd sds)
  obtain r1 l1 w1 where seg: "process_segment e temp video imgs i sd (l, w) = (r1, l1, w1)"
    by (cases "process_segment e temp video imgs i sd (l, w)") auto
  from process_segment_shape [OF seg] obtain cs1 tail1 where 1:
    "trace w1 = trace w @ ok_events cs1 @ tail1"
    "cycle_temp_files l1 = cycle_temp_files l @ map last cs1"
    "set (map last cs1) \<subseteq> set (segment_paths temp i)" "dirs w1 = dirs w"
    "tail1 = [] \<or> (\<exists>c st. st \<noteq> Exit 0 \<and> tail1 = [Run c st] \<and> r1 = Some (proc_error st c))"
    by blast
  have sub1: "set (map last cs1) \<subseteq> (\<Union>j\<in>{i..<i + length (sd # sds)}. set (segment_paths temp j))"
    using 1(3) by force
  show ?case
  proof (cases r1)
    case (Some err)
    with Cons.prems seg have "r = r1" "l' = l1" "w' = w1" by simp_all
    then show ?thesis
      apply -
      apply (rule exI [of _ cs1], rule exI [of _ tail1])
      using 1 sub1 by simp
  next
    case None
    with Cons.prems seg have "process_slides e temp video imgs (Suc i) sds (l1, w1) = (r, l', w')"
      by simp
    from Cons.IH [OF this] obtain cs2 tail2 where 2:
      "trace w' = trace w1 @ ok_events cs2 @ tail2"
      "cycle_temp_files l' = cycle_temp_files l1 @ map last cs2"
      "set (map last cs2) \<subseteq> (\<Union>j\<in>{Suc i..<Suc i + length sds}. set (segment_paths temp j))"
      "dirs w' = dirs w1"
      "tail2 = [] \<or> (\<exists>c st. st \<noteq> Exit 0 \<and> tail2 = [Run c st] \<and> r = Some (proc_error st c))"
      by blast
    have sub2: "set (map last cs2) \<subseteq> (\<Union>j\<in>{i..<i + length (sd # sds)}. set (segment_paths temp j))"
      using 2(3) by force
    from None 1(5) have t1: "tail1 = []" by auto
    show ?thesis
      apply (rule exI [of _ "cs1 @ cs2"], rule exI [of _ tail2])
      using 1(1,2,4) 2(1,2,4,5) t1 sub1 sub2 by simp
  qed
qed

lemma upt_Suc_Cons: "[i..<Suc (i + n)] = i # [Suc i..<Suc (i + n)]"
  by (rule upt_conv_Cons) simp

lemma cmds_of_entry_steps_length:
  "entry_steps e temp video imgs i x = map Inr cs \<Longrightarrow> cmds_of (entry_steps e temp video imgs i x) = cs"
  by simp

lemma process_slides_None:
  "process_slides e temp video imgs i sds (l, w) = (None, l', w') \<Longrightarrow>
     trace w' = trace w @ ok_events (loop_cmds e temp video imgs i sds) \<and>
     cycle_temp_files l' =
       cycle_temp_files l @ concat (map (segment_paths temp) [i..<i + length sds]) \<and>
     video_fragments l' = video_fragments l @ map (combined_path temp) [i..<i + length sds] \<and>
     dirs w' = dirs w \<and> (sds \<noteq> [] \<longrightarrow> i + length sds \<le> length imgs) \<and>
     length (loop_cmds e temp video imgs i sds) = 4 * length sds \<and>
     (\<forall>j<length sds. \<exists>sd start end_t duration ss se sdur.
        sds ! j = Object sd \<and> sd_start sd = Some start \<and> sd_end sd = Some end_t \<and>
        py_sub e end_t start = Inr duration \<and>
        py_str e start = Inr ss \<and> py_str e end_t = Inr se \<and> py_str e duration = Inr sdur \<and>
        take 4 (drop (4 * j) (loop_cmds e temp video imgs i sds)) =
          segment_cmds temp video (imgs ! (i + j)) (i + j) ss se sdur)"
proof (induction sds arbitrary: i l w)
  case Nil
  then show ?case by simp
next
  case (Cons x sds)
  obtain r1 l1 w1 where seg: "process_segment e temp video imgs i x (l, w) = (r1, l1, w1)"
    by (cases "process_segment e temp video imgs i x (l, w)") auto
  with Cons.prems have r1: "r1 = None"
    by (cases r1) auto
  with Cons.prems seg have rest: "process_slides e temp video imgs (Suc i) sds (l1, w1) = (None, l', w')"
    by simp
  from process_segment_None [OF seg [unfolded r1]] obtain sd s t d ss se sdur where 1:
    "x = Object sd" "sd_start sd = Some s" "sd_end sd = Some t" "py_sub e t s = Inr d"
    "i < length imgs" "py_str e s = Inr ss" "py_str e t = Inr se" "py_str e d = Inr sdur"
    "entry_steps e temp video imgs i x = map Inr (segment_cmds temp video (imgs ! i) i ss se sdur)"
    "trace w1 = trace w @ ok_events (segment_cmds temp video (imgs ! i) i ss se sdur)"
    "cycle_temp_files l1 = cycle_temp_files l @ segment_paths temp i"
    "video_fragments l1 = video_fragments l @ [combined_path temp i]" "dirs w1 = dirs w"
    by blast
  let ?c1 = "segment_cmds temp video (imgs ! i) i ss se sdur"
  let ?rest = "loop_cmds e temp video imgs (Suc i) sds"
  have lc: "loop_cmds e temp video imgs i (x # sds) = ?c1 @ ?rest"
    using 1(9) by simp
  note IH = Cons.IH [OF rest]
  note up = upt_Suc_Cons [of i "length sds"]
  have len: "sds = [] \<or> Suc i + length sds \<le> length imgs"
    using IH by blast
  then have len': "i + length (x # sds) \<le> length imgs"
    using 1(5) by auto
  have a: "trace w' = trace w @ ok_events (loop_cmds e temp video imgs i (x # sds))"
    using IH 1(10) lc by simp
  have b: "cycle_temp_files l' =
       cycle_temp_files l @ concat (map (segment_paths temp) [i..<i + length (x # sds)])"
    using IH 1(11) by (simp add: up del: upt_Suc)
  have c: "video_fragments l' =
      video_fragments l @ map (combined_path temp) [i..<i + length (x # sds)]"
    using IH 1(12) by (simp add: up del: upt_Suc)
  have d: "dirs w' = dirs w"
    using IH 1(13) by simp
  have f: "length (loop_cmds e temp video imgs i (x # sds)) = 4 * length (x # sds)"
    using IH lc by simp
  have g: "\<forall>j<length (x # sds). \<exists>sd start end_t duration ss se sdur.
        (x # sds) ! j = Object sd \<and> sd_start sd = Some start \<and> sd_end sd = Some end_t \<and>
        py_sub e end_t start = Inr duration \<and>
        py_str e start = Inr ss \<and> py_str e end_t = Inr se \<and> py_str e duration = Inr sdur \<and>
        take 4 (drop (4 * j) (loop_cmds e temp video imgs i (x # sds))) =
          segment_cmds temp video (imgs ! (i + j)) (i + j) ss se sdur"
  proof (intro allI impI)
    fix j assume j: "j < length (x # sds)"
    show "\<exists>sd start end_t duration ss se sdur.
        (x # sds) ! j = Object sd \<and> sd_start sd = Some start \<and> sd_end sd = Some end_t \<and>
        py_sub e end_t start = Inr duration \<and>
        py_str e start = Inr ss \<and> py_str e end_t = Inr se \<and> py_str e duration = Inr sdur \<and>
        take 4 (drop (4 * j) (loop_cmds e temp video imgs i (x # sds))) =
          segment_cmds temp video (imgs ! (i + j)) (i + j) ss se sdur"
    proof (cases j)
      case 0
      show ?thesis
        apply (rule exI [of _ sd], rule exI [of _ s], rule exI [of _ t], rule exI [of _ d],
          rule exI [of _ ss], rule exI [of _ se], rule exI [of _ sdur])
        using 0 1 lc by simp
    next
      case (Suc j')
      with j have "j' < length sds" by simp
      with IH obtain sd' s' t' d' ss' se' sdur' where 2:
        "sds ! j' = Object sd'" "sd_start sd' = Some s'" "sd_end sd' = Some t'"
        "py_sub e t' s' = Inr d'" "py_str e s' = Inr ss'" "py_str e t' = Inr se'"
        "py_str e d' = Inr sdur'"
        "take 4 (drop (4 * j') ?rest) =
           segment_cmds temp video (imgs ! (Suc i + j')) (Suc i + j') ss' se' sdur'"
        by blast
      have "drop (4 * j) (?c1 @ ?rest) = drop (4 * j') ?rest"
        using Suc by simp
      then show ?thesis
        apply -
        apply (rule exI [of _ sd'], rule exI [of _ s'], rule exI [of _ t'], rule exI [of _ d'],
          rule exI [of _ ss'], rule exI [of _ se'], rule exI [of _ sdur'])
        using Suc 2 lc by simp
    qed
  qed
  from a b c d len' f g show ?case by blast
qed

subsection \<open>Removal, projected\<close>

lemma remove_each_runs:
  assumes "\<And>p c st. r p \<noteq> Run c st"
  shows "runs (trace (remove_each r e ps w)) = runs (trace w)"
proof -
  obtain evs where evs: "trace (remove_each r e ps w) = trace w @ evs"
    "set evs \<subseteq> Remove ` set ps \<union> r ` set ps"
    using remove_each_trace by blast
  have "runs evs = []"
    proof (rule runs_none)
    fix c st show "Run c st \<notin> set evs"
      using subsetD [OF evs(2), of "Run c st"] assms [THEN not_sym] by auto
  qed
  then show ?thesis using evs(1) by simp
qed

lemma remove_each_writes:
  assumes "\<And>p q t. r p \<noteq> WriteFile q t"
  shows "writes (trace (remove_each r e ps w)) = writes (trace w)"
proof -
  obtain evs where evs: "trace (remove_each r e ps w) = trace w @ evs"
    "set evs \<subseteq> Remove ` set ps \<union> r ` set ps"
    using remove_each_trace by blast
  have "writes evs = []"
    proof (rule writes_none)
    fix q t show "WriteFile q t \<notin> set evs"
      using subsetD [OF evs(2), of "WriteFile q t"] assms [THEN not_sym] by auto
  qed
  then show ?thesis using evs(1) by simp
qed

lemma remove_each_saved:
  assumes "\<And>p q. r p \<noteq> SavePage q"
  shows "saved (trace (remove_each r e ps w)) = saved (trace w)"
proof -
  obtain evs where evs: "trace (remove_each r e ps w) = trace w @ evs"
    "set evs \<subseteq> Remove ` set ps \<union> r ` set ps"
    using remove_each_trace by blast
  have "saved evs = []"
    proof (rule saved_none)
    fix q show "SavePage q \<notin> set evs"
      using subsetD [OF evs(2), of "SavePage q"] assms [THEN not_sym] by auto
  qed
  then show ?thesis using evs(1) by simp
qed

lemma remove_each_removed:
  assumes "\<And>p q. r p \<noteq> Remove q"
  shows "\<exists>new. removed (trace (remove_each r e ps w)) = removed (trace w) @ new \<and>
           set new \<subseteq> set ps"
proof -
  obtain evs where evs: "trace (remove_each r e ps w) = trace w @ evs"
    "set evs \<subseteq> Remove ` set ps \<union> r ` set ps"
    using remove_each_trace by blast
  have "set (removed evs) \<subseteq> set ps"
    proof
    fix q assume "q \<in> set (removed evs)"
    then have "Remove q \<in> set evs" by (simp add: removed_set)
    from subsetD [OF evs(2) this] assms [THEN not_sym] show "q \<in> set ps" by auto
  qed
  then show ?thesis using evs(1) by auto
qed

subsection \<open>Before the try\<close>

lemma os_makedirs_None:
  "os_makedirs e p ok w = (None, w1) \<Longrightarrow>
     p \<noteq> [] \<and> resolve e p \<in> dirs w1 \<and> files w1 = files w \<and> runs (trace w1) = runs (trace w) \<and>
     writes (trace w1) = writes (trace w) \<and> saved (trace w1) = saved (trace w) \<and>
     removed (trace w1) = removed (trace w)"
  by (auto simp: os_makedirs_def split: if_splits)

lemma os_makedirs_Some:
  "os_makedirs e p ok w = (Some err, w1) \<Longrightarrow>
     w1 = w \<and> err \<in> {FileNotFoundError p, FileExistsError p, OSError p}"
  by (auto simp: os_makedirs_def split: if_splits)

lemma save_slides_Inr:
  "save_slides e f i n acc w = (Inr ps, w') \<Longrightarrow>
     ps = acc @ map (slide_image_path f) [i..<i + n] \<and>
     trace w' = trace w @ map SavePage (map (slide_image_path f) [i..<i + n]) \<and>
     dirs w' = dirs w"
proof (induction n arbitrary: i acc w)
  case 0
  then show ?case by simp
next
  case (Suc n)
  let ?p = "slide_image_path f i"
  let ?w1 = "w\<lparr>files := insert (resolve e ?p) (files w), trace := trace w @ [SavePage ?p]\<rparr>"
  from Suc.prems have "save_slides e f (Suc i) n (acc @ [?p]) ?w1 = (Inr ps, w')"
    by (auto simp: Let_def split: if_splits)
  from Suc.IH [OF this] show ?case
    by (simp add: upt_Suc_Cons del: upt_Suc)
qed

lemma convert_pdf_to_images_Inr:
  assumes "convert_pdf_to_images e p f w = (Inr imgs, w2)"
  shows "\<exists>m. convert_from_path e p = Inr m \<and> imgs = map (slide_image_path f) [0..<m] \<and>
     runs (trace w2) = runs (trace w) \<and> writes (trace w2) = writes (trace w) \<and>
     removed (trace w2) = removed (trace w) \<and> saved (trace w2) = saved (trace w) @ imgs"
proof -
  from assms obtain w1 m where 1:
    "(if \<not> os_path_exists e w f then os_makedirs e f False w else (None, w)) = (None, w1)"
    "convert_from_path e p = Inr m" "save_slides e f 0 m [] w1 = (Inr imgs, w2)"
    by (auto simp: convert_pdf_to_images_def split: prod.splits option.splits sum.splits)
  have w1: "runs (trace w1) = runs (trace w) \<and> writes (trace w1) = writes (trace w) \<and>
      saved (trace w1) = saved (trace w) \<and> removed (trace w1) = removed (trace w)"
    using 1(1) os_makedirs_None [of e f False w w1] by (auto split: if_splits)
  from save_slides_Inr [OF 1(3)] have 2: "imgs = map (slide_image_path f) [0..<m]"
    "trace w2 = trace w1 @ map SavePage imgs"
    by (simp_all del: map_map)
  show ?thesis
    using 1(2) 2 w1 by (simp del: map_map)
qed

lemma prepare_Inr:
  assumes "prepare e j p out w = (Inr (sl, temp, imgs), w2)"
  shows "json_slides e j = Inr (Some sl) \<and> pdf_open e p = None \<and>
     pdf_num_pages e p = Inr (length sl) \<and>
     temp = os_path_dirname out \<and> temp \<noteq> [] \<and>
     (\<exists>m. convert_from_path e p = Inr m \<and> imgs = map (slide_image_path temp) [0..<m]) \<and>
     runs (trace w2) = runs (trace w) \<and> writes (trace w2) = writes (trace w) \<and>
     removed (trace w2) = removed (trace w) \<and> saved (trace w2) = saved (trace w) @ imgs"
proof -
  from assms obtain w1 where 1: "json_slides e j = Inr (Some sl)" "pdf_open e p = None"
    "pdf_num_pages e p = Inr (length sl)"
    "temp = os_path_dirname out" "os_makedirs e temp True w = (None, w1)"
    "convert_pdf_to_images e p temp w1 = (Inr imgs, w2)"
    by (auto simp: prepare_def Let_def split: sum.splits if_splits prod.splits option.splits)
  from os_makedirs_None [OF 1(5)] convert_pdf_to_images_Inr [OF 1(6)] 1(1,2,3,4)
  show ?thesis by auto
qed

subsection \<open>The try and the finally\<close>

lemma concat_videos_shape:
  assumes "concat_videos e vl out w = (r, w')"
  shows "dirs w' = dirs w \<and> removed (trace w') = removed (trace w) \<and>
     saved (trace w') = saved (trace w) \<and>
     (writes (trace w') = writes (trace w) \<or> resolve e ''inputs.txt'' \<in> files w') \<and>
     (\<exists>new. runs (trace w') = runs (trace w) @ new \<and> set (produced new) \<subseteq> {out}) \<and>
     (r = None \<longrightarrow> resolve e out \<in> files w' \<and> resolve e ''inputs.txt'' \<in> files w' \<and>
        trace w' = trace w @ [WriteFile ''inputs.txt'' (manifest_text vl),
                              Run (concat_videos_cmd out) (Exit 0)])"
proof (cases "\<not> open_write_ok e ''inputs.txt'' \<or> resolve e ''inputs.txt'' \<in> dirs w")
  case True
  with assms have "w' = w" "r \<noteq> None"
    by (auto simp: concat_videos_def)
  then show ?thesis by (auto simp: produced_def)
next
  case False
  let ?w1 = "w\<lparr>files := insert (resolve e ''inputs.txt'') (files w),
                trace := trace w @ [WriteFile ''inputs.txt'' (manifest_text vl)]\<rparr>"
  from False assms have run: "subprocess_run e (concat_videos_cmd out) ?w1 = (r, w')"
    by (auto simp: concat_videos_def)
  show ?thesis
  proof (cases r)
    case None
    with run have "w' = ?w1\<lparr>files := insert (resolve e (last (concat_videos_cmd out))) (files ?w1),
        trace := trace ?w1 @ [Run (concat_videos_cmd out) (Exit 0)]\<rparr>"
      using subprocess_run_None [of e "concat_videos_cmd out" ?w1 w'] by simp
    with None show ?thesis by (auto simp: produced_def)
  next
    case (Some err)
    with run have "\<exists>st. st \<noteq> Exit 0 \<and> trace w' = trace ?w1 @ [Run (concat_videos_cmd out) st] \<and>
        dirs w' = dirs ?w1 \<and> resolve e ''inputs.txt'' \<in> files w'"
      by (auto simp: subprocess_run_def Let_def split: if_splits)
    with Some show ?thesis by (auto simp: produced_def)
  qed
qed

lemma try_block_shape:
  assumes "try_block e video out temp sl imgs (l, w) = (r, l', w')"
  shows "\<exists>cs new. cycle_temp_files l' = cycle_temp_files l @ map last cs \<and>
     set (map last cs) \<subseteq> (\<Union>j\<in>{0..<length sl}. set (segment_paths temp j)) \<and>
     dirs w' = dirs w \<and> removed (trace w') = removed (trace w) \<and>
     saved (trace w') = saved (trace w) \<and>
     (writes (trace w') = writes (trace w) \<or> resolve e ''inputs.txt'' \<in> files w') \<and>
     runs (trace w') = runs (trace w) @ new \<and>
     set (produced new) \<subseteq> set (map last cs) \<union> {out} \<and>
     (r = None \<longrightarrow> resolve e out \<in> files w')"
proof -
  obtain r1 l1 w1 where loop: "process_slides e temp video imgs 0 sl (l, w) = (r1, l1, w1)"
    by (cases "process_slides e temp video imgs 0 sl (l, w)") auto
  from process_slides_shape [OF loop] obtain cs tail where 1:
    "trace w1 = trace w @ ok_events cs @ tail"
    "cycle_temp_files l1 = cycle_temp_files l @ map last cs"
    "set (map last cs) \<subseteq> (\<Union>j\<in>{0..<length sl}. set (segment_paths temp j))" "dirs w1 = dirs w"
    "tail = [] \<or> (\<exists>c st. st \<noteq> Exit 0 \<and> tail = [Run c st] \<and> r1 = Some (proc_error st c))"
    by auto
  from 1(5) have tail: "removed tail = [] \<and> saved tail = [] \<and> writes tail = [] \<and>
      produced (runs tail) = []"
    by auto
  have proj1: "removed (trace w1) = removed (trace w)" "saved (trace w1) = saved (trace w)"
    "writes (trace w1) = writes (trace w)"
    "runs (trace w1) = runs (trace w) @ (map (\<lambda>c. (c, Exit 0)) cs @ runs tail)"
    using 1(1) tail by simp_all
  have prod1: "produced (map (\<lambda>c. (c, Exit 0)) cs @ runs tail) = map last cs"
    using tail by simp
  show ?thesis
  proof (cases r1)
    case (Some err)
    with assms loop have "r = r1" "l' = l1" "w' = w1"
      by (simp_all add: try_block_def)
    with Some show ?thesis
      apply -
      apply (rule exI [of _ cs], rule exI [of _ "map (\<lambda>c. (c, Exit 0)) cs @ runs tail"])
      using 1 proj1 prod1 by auto
  next
    case None
    with assms loop have cc: "concat_videos e (video_fragments l1) out w1 = (r, w')" "l' = l1"
      by (auto simp: try_block_def split: prod.splits)
    from concat_videos_shape [OF cc(1)] obtain new2 where 2:
      "dirs w' = dirs w1" "removed (trace w') = removed (trace w1)"
      "saved (trace w') = saved (trace w1)"
      "writes (trace w') = writes (trace w1) \<or> resolve e ''inputs.txt'' \<in> files w'"
      "runs (trace w') = runs (trace w1) @ new2" "set (produced new2) \<subseteq> {out}"
      "r = None \<longrightarrow> resolve e out \<in> files w'"
      by blast
    show ?thesis
      apply (rule exI [of _ cs], rule exI [of _ "(map (\<lambda>c. (c, Exit 0)) cs @ runs tail) @ new2"])
      using 1 2 proj1 prod1 cc(2) by auto
  qed
qed

lemma run_pipeline_decomp:
  assumes "prepare e j p out w = (Inr (sl, temp, imgs), w2)"
    and "run_pipeline e j p video out w = (r, tracked, w')"
  shows "\<exists>l3 w3. try_block e video out temp sl imgs
             (\<lparr>video_fragments = [], cycle_temp_files = imgs\<rparr>, w2) = (r, l3, w3) \<and>
     tracked = cycle_temp_files l3 @
       (if os_path_exists e w3 ''inputs.txt'' then [''inputs.txt''] else []) \<and>
     w' = remove_each Warned e tracked w3"
proof -
  obtain r3 l3 w3 where t: "try_block e video out temp sl imgs
      (\<lparr>video_fragments = [], cycle_temp_files = imgs\<rparr>, w2) = (r3, l3, w3)"
    by (cases "try_block e video out temp sl imgs
      (\<lparr>video_fragments = [], cycle_temp_files = imgs\<rparr>, w2)") auto
  have "r = r3 \<and> tracked = cycle_temp_files l3 @
       (if os_path_exists e w3 ''inputs.txt'' then [''inputs.txt''] else []) \<and>
     w' = remove_each Warned e tracked w3"
    using assms t
    by (auto simp: run_pipeline_def finally_block_def track_def Let_def)
  with t show ?thesis by blast
qed

lemma run_pipeline_compose:
  assumes "prepare e j p out w = (Inr (sl, temp, imgs), w2)"
    and "try_block e video out temp sl imgs
           (\<lparr>video_fragments = [], cycle_temp_files = imgs\<rparr>, w2) = (r, l3, w3)"
    and "tracked = cycle_temp_files l3 @
           (if os_path_exists e w3 ''inputs.txt'' then [''inputs.txt''] else [])"
  shows "run_pipeline e j p video out w = (r, tracked, remove_each Warned e tracked w3)"
  using assms by (simp add: run_pipeline_def finally_block_def track_def Let_def)

lemma os_path_dirname_inputs_txt: "os_path_dirname ''inputs.txt'' = []"
  by (simp add: os_path_dirname_def is_slash_def)

lemma try_block_None:
  assumes "try_block e video out temp sl imgs (l, w) = (None, l', w')"
  shows "\<exists>w1. process_slides e temp video imgs 0 sl (l, w) = (None, l', w1) \<and>
     concat_videos e (video_fragments l') out w1 = (None, w')"
proof -
  obtain r1 l1 w1 where loop: "process_slides e temp video imgs 0 sl (l, w) = (r1, l1, w1)"
    by (cases "process_slides e temp video imgs 0 sl (l, w)") auto
  with assms have "r1 = None"
    by (cases r1) (auto simp: try_block_def)
  with assms loop show ?thesis
    by (auto simp: try_block_def split: prod.splits)
qed

lemma run_pipeline_None:
  assumes "run_pipeline e j p video out w = (None, tracked, w')"
  shows "\<exists>sl temp imgs w2. prepare e j p out w = (Inr (sl, temp, imgs), w2)"
proof (cases "prepare e j p out w")
  case (Pair a w2)
  with assms show ?thesis
    by (cases a) (auto simp: run_pipeline_def)
qed

lemma run_pipeline_success:
  assumes "run_pipeline e j p video out w = (None, tracked, w')"
  shows "\<exists>sl m. json_slides e j = Inr (Some sl) \<and> convert_from_path e p = Inr m \<and>
     tracked = planned_paths (os_path_dirname out) m (length sl) @ [''inputs.txt'']"
proof -
  from run_pipeline_None [OF assms] obtain sl temp imgs w2 where
    prep: "prepare e j p out w = (Inr (sl, temp, imgs), w2)"
    by blast
  from prepare_Inr [OF prep] obtain m where p: "json_slides e j = Inr (Some sl)"
    "temp = os_path_dirname out" "convert_from_path e p = Inr m"
    "imgs = map (slide_image_path temp) [0..<m]"
    by blast
  from run_pipeline_decomp [OF prep assms] obtain l3 w3 where d:
    "try_block e video out temp sl imgs
       (\<lparr>video_fragments = [], cycle_temp_files = imgs\<rparr>, w2) = (None, l3, w3)"
    "tracked = cycle_temp_files l3 @
       (if os_path_exists e w3 ''inputs.txt'' then [''inputs.txt''] else [])"
    by blast
  from try_block_None [OF d(1)] obtain w1 where t:
    "process_slides e temp video imgs 0 sl
       (\<lparr>video_fragments = [], cycle_temp_files = imgs\<rparr>, w2) = (None, l3, w1)"
    "concat_videos e (video_fragments l3) out w1 = (None, w3)"
    by blast
  from process_slides_None [OF t(1)] have c:
    "cycle_temp_files l3 = imgs @ concat (map (segment_paths temp) [0..<length sl])"
    by simp
  from concat_videos_shape [OF t(2)] have "resolve e ''inputs.txt'' \<in> files w3"
    by simp
  then have "tracked = cycle_temp_files l3 @ [''inputs.txt'']"
    using d(2) by (simp add: os_path_exists_def)
  with c p show ?thesis
    by (simp add: planned_paths_def)
qed

subsection \<open>The commands of the loop are not the concatenation\<close>

lemma cmds_of_set: "c \<in> set (cmds_of xs) \<longleftrightarrow> Inr c \<in> set xs"
  by (induction xs rule: cmds_of.induct) auto

lemma segment_steps_not_concat:
  assumes "Inr c \<in> set (segment_steps e temp video img i s t d)"
  shows "c \<noteq> concat_videos_cmd out"
proof -
  from assms have "cut_video_cmd e video s t (speaker_cut_path temp i) = Inr c \<or>
      slide_to_video_cmd e img d (slide_vid_path temp i) = Inr c \<or>
      c = resize_video_cmd (speaker_cut_path temp i) (speaker_resized_path temp i) \<or>
      c = combine_videos_cmd (slide_vid_path temp i) (speaker_resized_path temp i)
            (combined_path temp i)"
    by (auto simp: segment_steps_def)
  then show ?thesis
    by (auto simp: cut_video_cmd_Inr slide_to_video_cmd_Inr
      cut_video_args_def slide_to_video_args_def resize_video_cmd_def
      combine_videos_cmd_def concat_videos_cmd_def)
qed

lemma entry_steps_not_concat:
  "Inr c \<in> set (entry_steps e temp video imgs i x) \<Longrightarrow> c \<noteq> concat_videos_cmd out"
  by (auto simp: entry_steps_def split: sum.splits dest: segment_steps_not_concat)

lemma loop_cmds_not_concat:
  "c \<in> set (loop_cmds e temp video imgs i sds) \<Longrightarrow> c \<noteq> concat_videos_cmd out"
  by (induction sds arbitrary: i) (auto simp: cmds_of_set dest: entry_steps_not_concat)

subsection \<open>The manifest\<close>

lemma split_lines_line:
  "CHR 0x0A \<notin> set l \<Longrightarrow> split_lines acc (l @ CHR 0x0A # rest) = (acc @ l) # split_lines [] rest"
  by (induction l arbitrary: acc) auto

lemma quoted_path_line:
  assumes "CHR 0x27 \<notin> set p"
  shows "quoted_path (''file '' @ [CHR 0x27] @ p @ [CHR 0x27]) = p"
proof -
  have "takeWhile (\<lambda>c. c \<noteq> CHR 0x27) (p @ [CHR 0x27]) =
      p @ takeWhile (\<lambda>c. c \<noteq> CHR 0x27) [CHR 0x27]"
    using assms by (intro takeWhile_append2) auto
  then show ?thesis
    by (simp add: quoted_path_def)
qed

lemma manifest_paths_manifest_text:
  "(\<And>p. p \<in> set ps \<Longrightarrow> CHR 0x0A \<notin> set p \<and> CHR 0x27 \<notin> set p) \<Longrightarrow>
     manifest_paths (manifest_text ps) = ps"
proof (induction ps)
  case Nil
  show ?case by (simp add: manifest_paths_def manifest_text_def)
next
  case (Cons p ps)
  let ?line = "''file '' @ [CHR 0x27] @ p @ [CHR 0x27]"
  have nl: "CHR 0x0A \<notin> set ?line"
    using Cons.prems [of p] by simp
  have "manifest_text (p # ps) = ?line @ CHR 0x0A # manifest_text ps"
    by (simp add: manifest_text_def manifest_line_def)
  then have "split_lines [] (manifest_text (p # ps)) = ?line # split_lines [] (manifest_text ps)"
    using split_lines_line [OF nl, of "[]"] by simp
  moreover have "quoted_path ?line = p"
    using Cons.prems [of p] by (intro quoted_path_line) simp
  moreover have "manifest_paths (manifest_text ps) = ps"
    using Cons by simp
  ultimately show ?case
    by (simp add: manifest_paths_def)
qed

lemma digit_char_in: "d < 10 \<Longrightarrow> digit_char d \<in> set ''0123456789''"
  unfolding digit_char_def by (rule nth_mem) simp

lemma set_str_nat: "set (str_nat n) \<subseteq> set ''0123456789''"
proof (induction n rule: str_nat.induct)
  case (1 n)
  show ?case
  proof (cases "n < 10")
    case True
    then show ?thesis
      using digit_char_in [of n] by (subst str_nat.simps) simp
  next
    case False
    have "n mod 10 < 10" by simp
    from digit_char_in [OF this] 1 False show ?thesis
      by (subst str_nat.simps) simp
  qed
qed

lemma set_fmt_02d: "set (fmt_02d i) \<subseteq> set ''0123456789''"
  using set_str_nat [of i] by (auto simp: fmt_02d_def)

lemma combined_path_plain:
  assumes "CHR 0x0A \<notin> set temp" and "CHR 0x27 \<notin> set temp"
  shows "CHR 0x0A \<notin> set (combined_path temp i) \<and> CHR 0x27 \<notin> set (combined_path temp i)"
proof -
  have "CHR 0x0A \<notin> set (fmt_02d i)" "CHR 0x27 \<notin> set (fmt_02d i)"
    using set_fmt_02d [of i] by auto
  with assms show ?thesis
    by (auto simp: combined_path_def os_path_join_def is_slash_def)
qed

subsection \<open>Printing numbers\<close>

lemma digit_val_digit_char: "d < 10 \<Longrightarrow> digit_val (digit_char d) = d"
proof -
  assume "d < 10"
  then have "d \<in> {0, 1, 2, 3, 4, 5, 6, 7, 8, 9}" by auto
  then show ?thesis
    by (auto simp: digit_val_def digit_char_def)
qed

lemma decimal_snoc: "decimal (ds @ [c]) = 10 * decimal ds + digit_val c"
  by (simp add: decimal_def)

lemma decimal_str_nat: "decimal (str_nat n) = n"
proof (induction n rule: str_nat.induct)
  case (1 n)
  show ?case
  proof (cases "n < 10")
    case True
    then show ?thesis
      by (subst str_nat.simps) (simp add: decimal_def digit_val_digit_char)
  next
    case False
    with 1 have "decimal (str_nat (n div 10)) = n div 10" by simp
    with False show ?thesis
      by (subst str_nat.simps) (simp add: decimal_snoc digit_val_digit_char)
  qed
qed

lemma str_nat_nonempty: "str_nat n \<noteq> []"
  by (subst str_nat.simps) simp

lemma str_nat_no_leading_zero: "0 < n \<Longrightarrow> hd (str_nat n) \<noteq> CHR ''0''"
proof (induction n rule: str_nat.induct)
  case (1 n)
  show ?case
  proof (cases "n < 10")
    case True
    with 1(2) have "n \<in> {1, 2, 3, 4, 5, 6, 7, 8, 9}" by auto
    then show ?thesis
      by (subst str_nat.simps) (auto simp: digit_char_def)
  next
    case False
    then have pos: "0 < n div 10" by simp
    have ne: "str_nat (n div 10) \<noteq> []"
      by (rule str_nat_nonempty)
    from 1(1) [OF False pos] False ne show ?thesis
      by (subst str_nat.simps) simp
  qed
qed

lemma length_str_nat_le: "0 < k \<Longrightarrow> length (str_nat n) \<le> k \<longleftrightarrow> n < 10 ^ k"
proof (induction n arbitrary: k rule: str_nat.induct)
  case (1 n)
  show ?case
  proof (cases "n < 10")
    case True
    have "(10::nat) ^ 1 \<le> 10 ^ k"
      using 1(2) by (intro power_increasing) simp_all
    with True have "n < 10 ^ k" by simp
    with True 1(2) show ?thesis
      by (subst str_nat.simps) simp
  next
    case False
    show ?thesis
    proof (cases "k = 1")
      case True
      with False show ?thesis
        by (subst str_nat.simps) (simp add: str_nat_nonempty)
    next
      case k: False
      with 1(2) obtain k' where k': "k = Suc k'" "0 < k'"
        by (cases k) auto
      from 1(1) [OF False k'(2)] have "length (str_nat (n div 10)) \<le> k' \<longleftrightarrow> n div 10 < 10 ^ k'" .
      moreover have "n div 10 < 10 ^ k' \<longleftrightarrow> n < 10 ^ k"
        unfolding k'(1) by (simp add: div_less_iff_less_mult mult.commute)
      ultimately show ?thesis
        using False k'(1) by (subst str_nat.simps) simp
    qed
  qed
qed

lemma py_str_int:
  "py_str e (JInt i) =
     (if int_max_str_digits e \<noteq> 0 \<and> 10 ^ int_max_str_digits e \<le> \<bar>i\<bar>
      then Inl (ValueError (digits_message e)) else Inr (str_int i))"
proof (cases "int_max_str_digits e = 0")
  case True
  then show ?thesis by (simp add: py_str_def)
next
  case False
  then have pos: "0 < int_max_str_digits e" by simp
  have "int_max_str_digits e < length (str_nat (nat \<bar>i\<bar>)) \<longleftrightarrow>
      \<not> nat \<bar>i\<bar> < 10 ^ int_max_str_digits e"
    using length_str_nat_le [OF pos, of "nat \<bar>i\<bar>"] by auto
  also have "\<dots> \<longleftrightarrow> 10 ^ int_max_str_digits e \<le> \<bar>i\<bar>"
  proof -
    have "nat \<bar>i\<bar> < 10 ^ int_max_str_digits e \<longleftrightarrow> \<bar>i\<bar> < int (10 ^ int_max_str_digits e)"
      by (simp add: nat_less_iff)
    then show ?thesis by auto
  qed
  finally show ?thesis
    using False by (simp add: py_str_def)
qed

lemma py_sub_int: "py_sub e (JInt a) (JInt b) = Inr (JInt (a - b))"
  by (simp add: py_sub_def as_number_def)

subsection \<open>The outcome does not depend on removals\<close>

lemma py_str_remove_ok [simp]: "py_str (e\<lparr>remove_ok := f\<rparr>) v = py_str e v"
  by (simp add: py_str_def split: jvalue.splits pyfloat.splits option.splits)

lemma to_float_remove_ok [simp]: "to_float (e\<lparr>remove_ok := f\<rparr>) n = to_float e n"
  by (simp add: to_float_def split: sum.splits option.splits)

lemma py_sub_remove_ok [simp]: "py_sub (e\<lparr>remove_ok := f\<rparr>) a b = py_sub e a b"
  by (simp add: py_sub_def split: option.splits sum.splits prod.splits)

lemma segment_inputs_remove_ok [simp]:
  "segment_inputs (e\<lparr>remove_ok := f\<rparr>) n i x = segment_inputs e n i x"
  by (simp add: segment_inputs_def split: entry.splits option.splits sum.splits)

lemma segment_steps_remove_ok [simp]:
  "segment_steps (e\<lparr>remove_ok := f\<rparr>) temp v img i s t d = segment_steps e temp v img i s t d"
  by (simp add: segment_steps_def cut_video_cmd_def slide_to_video_cmd_def split: sum.splits)

lemma subprocess_run_remove_ok [simp]:
  "subprocess_run (e\<lparr>remove_ok := f\<rparr>) c w = subprocess_run e c w"
  by (simp add: subprocess_run_def Let_def)

lemma run_tracked_remove_ok [simp]:
  "run_tracked (e\<lparr>remove_ok := f\<rparr>) xs s = run_tracked e xs s"
  by (induction e xs s rule: run_tracked.induct) (simp_all split: prod.splits option.splits)

lemma process_segment_remove_ok [simp]:
  "process_segment (e\<lparr>remove_ok := f\<rparr>) temp video imgs i x s =
     process_segment e temp video imgs i x s"
  by (cases s) (simp add: process_segment_eq split: sum.splits prod.splits)

lemma process_slides_remove_ok [simp]:
  "process_slides (e\<lparr>remove_ok := f\<rparr>) temp video imgs i sds s =
     process_slides e temp video imgs i sds s"
  by (induction sds arbitrary: i s) (simp_all split: prod.splits option.splits)

lemma concat_videos_remove_ok [simp]:
  "concat_videos (e\<lparr>remove_ok := f\<rparr>) vl out w = concat_videos e vl out w"
  by (simp add: concat_videos_def)

lemma try_block_remove_ok [simp]:
  "try_block (e\<lparr>remove_ok := f\<rparr>) video out temp sl imgs s =
     try_block e video out temp sl imgs s"
  by (simp add: try_block_def split: prod.splits option.splits)

lemma os_path_exists_remove_ok [simp]:
  "os_path_exists (e\<lparr>remove_ok := f\<rparr>) w p = os_path_exists e w p"
  by (simp add: os_path_exists_def)

lemma os_makedirs_remove_ok [simp]:
  "os_makedirs (e\<lparr>remove_ok := f\<rparr>) p ok w = os_makedirs e p ok w"
  by (simp add: os_makedirs_def)

lemma save_slides_remove_ok [simp]:
  "save_slides (e\<lparr>remove_ok := f\<rparr>) folder i n acc w = save_slides e folder i n acc w"
  by (induction n arbitrary: i acc w) (simp_all add: Let_def)

lemma convert_pdf_to_images_remove_ok [simp]:
  "convert_pdf_to_images (e\<lparr>remove_ok := f\<rparr>) p folder w = convert_pdf_to_images e p folder w"
  by (simp add: convert_pdf_to_images_def split: prod.splits option.splits sum.splits)

lemma prepare_remove_ok [simp]:
  "prepare (e\<lparr>remove_ok := f\<rparr>) j p out w = prepare e j p out w"
  by (simp add: prepare_def Let_def split: prod.splits option.splits sum.splits)

lemma fst_run_pipeline_remove_ok:
  "fst (run_pipeline (e\<lparr>remove_ok := f\<rparr>) j p video out w) = fst (run_pipeline e j p video out w)"
  by (simp add: run_pipeline_def finally_block_def Let_def split: prod.splits sum.splits)

lemma fst_process:
  "fst (process_video_with_presentation e j p video out w) = fst (run_pipeline e j p video out w)"
  by (simp add: process_video_with_presentation_def split: prod.splits)

lemma fst_process_remove_ok:
  "fst (process_video_with_presentation (e\<lparr>remove_ok := f\<rparr>) j p video out w) =
     fst (process_video_with_presentation e j p video out w)"
  by (simp add: fst_process fst_run_pipeline_remove_ok)

lemma fst_create_video_task:
  "fst (create_video_task e tid j p video w) =
     (case (if update_state_ok e
            then fst (process_video_with_presentation e j p video (output_path_of tid)
                        (w\<lparr>trace := trace w @ [UpdateState]\<rparr>))
            else Some BackendError) of
        None \<Rightarrow> Inr \<lparr>status = ''SUCCESS'', result_path = output_path_of tid,
                     result_filename = output_filename_of tid\<rparr>
      | Some err \<Rightarrow> Inl err)"
  by (simp add: create_video_task_def output_path_of_def Let_def split: prod.splits option.splits)

subsection \<open>What is done before the loop does not depend on the entries of the timeline\<close>

lemma os_makedirs_json_slides [simp]:
  "os_makedirs (e\<lparr>json_slides := f\<rparr>) p ok w = os_makedirs e p ok w"
  by (simp add: os_makedirs_def)

lemma save_slides_json_slides [simp]:
  "save_slides (e\<lparr>json_slides := f\<rparr>) folder i n acc w = save_slides e folder i n acc w"
  by (induction n arbitrary: i acc w) (simp_all add: Let_def)

lemma convert_pdf_to_images_json_slides [simp]:
  "convert_pdf_to_images (e\<lparr>json_slides := f\<rparr>) p folder w = convert_pdf_to_images e p folder w"
  by (simp add: convert_pdf_to_images_def os_path_exists_def
      split: prod.splits option.splits sum.splits)

lemma prepare_blind:
  assumes "length sl' = length sl"
  shows "prepare (e\<lparr>json_slides := \<lambda>p. Inr (Some sl')\<rparr>) j p out w =
     (case prepare (e\<lparr>json_slides := \<lambda>p. Inr (Some sl)\<rparr>) j p out w of
        (Inl err, w1) \<Rightarrow> (Inl err, w1)
      | (Inr (s, temp, imgs), w1) \<Rightarrow> (Inr (sl', temp, imgs), w1))"
  using assms
  by (simp add: prepare_def Let_def split: prod.splits option.splits sum.splits)

subsection \<open>The task wrapper\<close>

lemma create_video_task_failure:
  assumes "update_state_ok e"
    and "run_pipeline e j p video (output_path_of tid) (w\<lparr>trace := trace w @ [UpdateState]\<rparr>) =
           (Some err, tracked, w4)"
  shows "create_video_task e tid j p video w =
     (Inl err, cleanup_files e [j, p, video]
        (cleanup_files e [j, p, video, output_path_of tid]
           (w4\<lparr>trace := trace w4 @ [TaskFailed err]\<rparr>)))"
  using assms
  by (simp add: create_video_task_def process_video_with_presentation_def output_path_of_def
      Let_def)

lemma create_video_task_Inr:
  assumes "create_video_task e tid j p video w = (Inr res, w')"
  shows "\<exists>tracked w4.
     run_pipeline e j p video (output_path_of tid) (w\<lparr>trace := trace w @ [UpdateState]\<rparr>) =
       (None, tracked, w4) \<and>
     w' = cleanup_files e [j, p, video] w4 \<and>
     res = \<lparr>status = ''SUCCESS'', result_path = output_path_of tid,
            result_filename = output_filename_of tid\<rparr>"
proof (cases "update_state_ok e")
  case False
  with assms show ?thesis
    by (simp add: create_video_task_def Let_def)
next
  case True
  obtain r tracked w4 where run:
    "run_pipeline e j p video (output_path_of tid) (w\<lparr>trace := trace w @ [UpdateState]\<rparr>) =
       (r, tracked, w4)"
    by (cases "run_pipeline e j p video (output_path_of tid)
        (w\<lparr>trace := trace w @ [UpdateState]\<rparr>)") auto
  show ?thesis
  proof (cases r)
    case None
    with assms True run show ?thesis
      by (auto simp: create_video_task_def process_video_with_presentation_def
          output_path_of_def Let_def)
  next
    case (Some err)
    with assms True run show ?thesis
      by (simp add: create_video_task_def process_video_with_presentation_def
          output_path_of_def Let_def)
  qed
qed

lemma cleanup_files_proj:
  "files (cleanup_files e ps w) = files w - {f \<in> resolve e ` set ps. remove_ok e f}"
  "runs (trace (cleanup_files e ps w)) = runs (trace w)"
  "writes (trace (cleanup_files e ps w)) = writes (trace w)"
  "saved (trace (cleanup_files e ps w)) = saved (trace w)"
  by (simp_all add: cleanup_files_def remove_each_files remove_each_runs remove_each_writes
      remove_each_saved)

lemma cleanup_files_removed:
  "\<exists>new. removed (trace (cleanup_files e ps w)) = removed (trace w) @ new \<and> set new \<subseteq> set ps"
  unfolding cleanup_files_def by (rule remove_each_removed) simp

subsection \<open>The cleanup of the pipeline\<close>

lemma planned_paths_set:
  "set (planned_paths temp m n) =
     slide_image_path temp ` {0..<m} \<union> (\<Union>j\<in>{0..<n}. set (segment_paths temp j))"
  by (auto simp: planned_paths_def)

lemma run_pipeline_cleanup:
  assumes prep: "prepare e json_path presentation_path output_path w = (Inr (sl, temp, imgs), w2)"
    and run: "run_pipeline e json_path presentation_path video_path output_path w = (r, tracked, w')"
  shows "set imgs \<subseteq> set tracked \<and> saved (trace w') = saved (trace w) @ imgs \<and>
     set (produced (drop (length (runs (trace w))) (runs (trace w')))) \<subseteq> set tracked \<union> {output_path} \<and>
     set tracked \<subseteq> set (planned_paths temp (length imgs) (length sl)) \<union> {''inputs.txt''} \<and>
     (\<forall>q\<in>set tracked. resolve e q \<notin> files w' \<or> \<not> remove_ok e (resolve e q)) \<and>
     (writes (trace w') \<noteq> writes (trace w) \<longrightarrow> ''inputs.txt'' \<in> set tracked) \<and>
     (resolve e ''inputs.txt'' \<notin> files w' \<or> \<not> remove_ok e (resolve e ''inputs.txt'')) \<and>
     set (drop (length (removed (trace w))) (removed (trace w'))) \<subseteq> set tracked \<and>
     output_path \<noteq> ''inputs.txt'' \<and>
     (r = None \<longrightarrow> ''inputs.txt'' \<in> set tracked) \<and>
     (resolve e output_path \<notin> resolve e ` set tracked \<longrightarrow>
        (r = None \<longrightarrow> resolve e output_path \<in> files w'))"
proof -
  from prepare_Inr [OF prep] obtain m where p:
    "temp = os_path_dirname output_path" "temp \<noteq> []"
    "imgs = map (slide_image_path temp) [0..<m]"
    "runs (trace w2) = runs (trace w)" "writes (trace w2) = writes (trace w)"
    "removed (trace w2) = removed (trace w)" "saved (trace w2) = saved (trace w) @ imgs"
    by blast
  from run_pipeline_decomp [OF prep run] obtain l3 w3 where d:
    "try_block e video_path output_path temp sl imgs
       (\<lparr>video_fragments = [], cycle_temp_files = imgs\<rparr>, w2) = (r, l3, w3)"
    "tracked = cycle_temp_files l3 @
       (if os_path_exists e w3 ''inputs.txt'' then [''inputs.txt''] else [])"
    "w' = remove_each Warned e tracked w3"
    by blast
  from try_block_shape [OF d(1)] obtain cs new where t:
    "cycle_temp_files l3 = imgs @ map last cs"
    "set (map last cs) \<subseteq> (\<Union>j\<in>{0..<length sl}. set (segment_paths temp j))"
    "removed (trace w3) = removed (trace w2)"
    "writes (trace w3) = writes (trace w2) \<or> resolve e ''inputs.txt'' \<in> files w3"
    "runs (trace w3) = runs (trace w2) @ new"
    "set (produced new) \<subseteq> set (map last cs) \<union> {output_path}"
    "r = None \<longrightarrow> resolve e output_path \<in> files w3" "saved (trace w3) = saved (trace w2)"
    by auto
  have final: "files w' = files w3 - {f \<in> resolve e ` set tracked. remove_ok e f}"
    "runs (trace w') = runs (trace w3)" "writes (trace w') = writes (trace w3)"
    unfolding d(3)
    by (simp_all add: remove_each_files remove_each_runs remove_each_writes)
  obtain gone where gone: "removed (trace w') = removed (trace w3) @ gone" "set gone \<subseteq> set tracked"
    unfolding d(3) using remove_each_removed [of Warned e tracked w3] by auto
  have c1: "set imgs \<subseteq> set tracked"
    using d(2) t(1) by auto
  have c0: "saved (trace w') = saved (trace w) @ imgs"
    unfolding d(3) using t(8) p(7) by (simp add: remove_each_saved)
  have "drop (length (runs (trace w))) (runs (trace w')) = new"
    using final(2) t(5) p(4) by simp
  then have c2: "set (produced (drop (length (runs (trace w))) (runs (trace w')))) \<subseteq>
      set tracked \<union> {output_path}"
    using t(6) t(1) d(2) by auto
  have "set imgs \<subseteq> set (planned_paths temp (length imgs) (length sl))"
    using p(3) by (auto simp: planned_paths_set)
  moreover have "set (map last cs) \<subseteq> set (planned_paths temp (length imgs) (length sl))"
    using t(2) by (auto simp: planned_paths_set)
  ultimately have c3: "set tracked \<subseteq>
      set (planned_paths temp (length imgs) (length sl)) \<union> {''inputs.txt''}"
    using d(2) t(1) by auto
  have c4: "\<forall>q\<in>set tracked. resolve e q \<notin> files w' \<or> \<not> remove_ok e (resolve e q)"
    using final(1) by auto
  have c5: "writes (trace w') \<noteq> writes (trace w) \<longrightarrow> ''inputs.txt'' \<in> set tracked"
    using final(3) t(4) p(5) d(2) by (auto simp: os_path_exists_def)
  have c5': "resolve e ''inputs.txt'' \<notin> files w' \<or> \<not> remove_ok e (resolve e ''inputs.txt'')"
  proof (cases "resolve e ''inputs.txt'' \<in> files w3")
    case True
    then have "''inputs.txt'' \<in> set tracked"
      using d(2) by (simp add: os_path_exists_def)
    with c4 show ?thesis by blast
  next
    case False
    with final(1) show ?thesis by simp
  qed
  have c6: "set (drop (length (removed (trace w))) (removed (trace w'))) \<subseteq> set tracked"
    using gone t(3) p(6) by simp
  have ne: "output_path \<noteq> ''inputs.txt''"
    using p(1) p(2) os_path_dirname_inputs_txt by auto
  have c7: "r = None \<longrightarrow> ''inputs.txt'' \<in> set tracked"
  proof
    assume "r = None"
    with run run_pipeline_success [of e json_path presentation_path video_path output_path w
        tracked w']
    show "''inputs.txt'' \<in> set tracked" by auto
  qed
  have c8: "resolve e output_path \<notin> resolve e ` set tracked \<longrightarrow>
        (r = None \<longrightarrow> resolve e output_path \<in> files w')"
    using t(7) final(1) by auto
  from c0 c1 c2 c3 c4 c5 c5' c6 ne c7 c8 show ?thesis by blast
qed

subsection \<open>The output path of a task\<close>

lemma output_path_of_eq:
  "output_path_of tid = ''uploads/processed_video_'' @ tid @ ''.mp4''"
  by (simp add: output_path_of_def output_filename_of_def UPLOADS_DIR_def os_path_join_def
      is_slash_def)

lemma os_path_dirname_output:
  assumes "CHR ''/'' \<notin> set tid"
  shows "os_path_dirname (output_path_of tid) = ''uploads''"
proof -
  have "dropWhile (\<lambda>c. \<not> is_slash c) (rev tid @ rev ''uploads/processed_video_'') =
      dropWhile (\<lambda>c. \<not> is_slash c) (rev ''uploads/processed_video_'')"
    using assms by (intro dropWhile_append2) (auto simp: is_slash_def)
  then have "dropWhile (\<lambda>c. \<not> is_slash c) (rev (output_path_of tid)) = rev ''uploads/''"
    by (simp add: output_path_of_eq is_slash_def)
  then show ?thesis
    by (simp add: os_path_dirname_def is_slash_def)
qed

lemma output_not_planned:
  assumes "CHR ''/'' \<notin> set tid"
  shows "output_path_of tid \<notin> set (planned_paths (os_path_dirname (output_path_of tid)) m n) \<union>
     {''inputs.txt''}"
  unfolding os_path_dirname_output [OF assms]
  by (auto simp: output_path_of_eq planned_paths_set segment_paths_def slide_image_path_def
      speaker_cut_path_def slide_vid_path_def speaker_resized_path_def combined_path_def
      os_path_join_def is_slash_def)

section \<open>The claims\<close>

subsection \<open>C2: a count mismatch fails before anything is done\<close>

text \<open>
  Claim C2. Whenever the timeline has a number of segments that differs from the page
  count of the document, \<^verbatim>\<open>process_video_with_presentation\<close> raises a
  \<^verbatim>\<open>ValueError\<close> whose message names both counts, and it leaves the world as it
  found it: no folder has been created, no page has been rasterized, no command has been
  run and no file has appeared; the cleanup set is empty.
\<close>

theorem count_mismatch_fails_first:
  assumes "json_slides e json_path = Inr (Some slides_data_list)"
    and "pdf_open e presentation_path = None"
    and "pdf_num_pages e presentation_path = Inr num_pages"
    and "length slides_data_list \<noteq> num_pages"
  shows "process_video_with_presentation e json_path presentation_path video_path output_path w =
           (Some (ValueError (mismatch_prefix @ str_nat (length slides_data_list) @
                              mismatch_infix @ str_nat num_pages)), w) \<and>
         run_pipeline e json_path presentation_path video_path output_path w =
           (Some (ValueError (mismatch_message (length slides_data_list) num_pages)), [], w)"
  using assms
  by (simp add: process_video_with_presentation_def run_pipeline_def prepare_def
      mismatch_message_def)

theorem count_mismatch_fails_first_witness:
  "json_slides (demo_env demo_slides 3 all_succeed) demo_json = Inr (Some demo_slides) \<and>
   pdf_open (demo_env demo_slides 3 all_succeed) demo_pdf = None \<and>
   pdf_num_pages (demo_env demo_slides 3 all_succeed) demo_pdf = Inr 3 \<and>
   length demo_slides \<noteq> 3 \<and>
   process_video_with_presentation (demo_env demo_slides 3 all_succeed) demo_json
       demo_pdf demo_video (output_path_of demo_id) demo_world =
     (Some (ValueError (mismatch_prefix @ ''2'' @ mismatch_infix @ ''3'')), demo_world)"
proof -
  have h1: "json_slides (demo_env demo_slides 3 all_succeed) demo_json = Inr (Some demo_slides)"
    by (simp add: demo_env_def)
  have h2: "pdf_open (demo_env demo_slides 3 all_succeed) demo_pdf = None"
    by (simp add: demo_env_def)
  have h3: "pdf_num_pages (demo_env demo_slides 3 all_succeed) demo_pdf = Inr 3"
    by (simp add: demo_env_def)
  have h4: "length demo_slides \<noteq> 3"
    by (simp add: demo_slides_def)
  have s2: "str_nat (length demo_slides) = ''2''" and s3: "str_nat 3 = ''3''"
    by (simp_all add: demo_slides_def str_nat.simps digit_char_def)
  show ?thesis
    using count_mismatch_fails_first [OF h1 h2 h3 h4, of demo_video
        "output_path_of demo_id" demo_world] h1 h2 h3 h4 s2 s3
    by simp
qed

subsection \<open>C9: the invariant of the cleanup accumulator\<close>

text \<open>
  Claim C9. When the loop starts, \<^verbatim>\<open>cycle_temp_files\<close> is the list of the page
  images that rasterization saved. Wherever the loop is left, after any number \<open>k\<close> of
  segments, normally or by an exception of any operation, the accumulator is exactly the
  page images followed by the outputs of the commands that have succeeded so far, in the
  order in which they ran: an output is appended as soon as its command has succeeded and
  before the next command runs.
\<close>

theorem accumulator_holds_every_product:
  assumes prep: "prepare e json_path presentation_path output_path w = (Inr (sl, temp, imgs), w2)"
    and loop: "process_slides e temp video_path imgs 0 (take k sl)
                 (\<lparr>video_fragments = [], cycle_temp_files = imgs\<rparr>, w2) = (r, l, w3)"
  shows "saved (trace w2) = saved (trace w) @ imgs \<and>
     saved (trace w3) = saved (trace w) @ imgs \<and>
     cycle_temp_files l = imgs @ produced (drop (length (runs (trace w))) (runs (trace w3)))"
proof -
  from prepare_Inr [OF prep] have p: "runs (trace w2) = runs (trace w)"
    "saved (trace w2) = saved (trace w) @ imgs"
    by simp_all
  from process_slides_shape [OF loop] obtain cs tail where 1:
    "trace w3 = trace w2 @ ok_events cs @ tail"
    "cycle_temp_files l = imgs @ map last cs"
    "tail = [] \<or> (\<exists>c st. st \<noteq> Exit 0 \<and> tail = [Run c st] \<and> r = Some (proc_error st c))"
    by auto
  from 1(3) have tail: "saved tail = []" "produced (runs tail) = []"
    by auto
  have "drop (length (runs (trace w))) (runs (trace w3)) = map (\<lambda>c. (c, Exit 0)) cs @ runs tail"
    using 1(1) p(1) by simp
  then have "produced (drop (length (runs (trace w))) (runs (trace w3))) = map last cs"
    using tail by simp
  moreover have "saved (trace w3) = saved (trace w) @ imgs"
    using 1(1) p(2) tail by simp
  ultimately show ?thesis using 1(2) p(2) by simp
qed

theorem accumulator_holds_every_product_witness:
  "prepare (demo_env demo_slides 2 (fail_at ''uploads/speaker_01_resized.mp4'')) demo_json demo_pdf
        (output_path_of demo_id) demo_world =
     (Inr (demo_slides, ''uploads'', [''uploads/slide_01.png'', ''uploads/slide_02.png'']),
      snd (prepare (demo_env demo_slides 2 (fail_at ''uploads/speaker_01_resized.mp4'')) demo_json demo_pdf
        (output_path_of demo_id) demo_world)) \<and>
   fst (process_slides (demo_env demo_slides 2 (fail_at ''uploads/speaker_01_resized.mp4''))
        ''uploads'' demo_video [''uploads/slide_01.png'', ''uploads/slide_02.png''] 0
        (take 2 demo_slides)
        (\<lparr>video_fragments = [], cycle_temp_files = [''uploads/slide_01.png'', ''uploads/slide_02.png'']\<rparr>,
         snd (prepare (demo_env demo_slides 2 (fail_at ''uploads/speaker_01_resized.mp4'')) demo_json demo_pdf
        (output_path_of demo_id) demo_world))) =
     Some (CalledProcessError 1
       (resize_video_cmd ''uploads/speaker_01.mp4'' ''uploads/speaker_01_resized.mp4'')) \<and>
   cycle_temp_files (fst (snd (process_slides (demo_env demo_slides 2 (fail_at ''uploads/speaker_01_resized.mp4''))
        ''uploads'' demo_video [''uploads/slide_01.png'', ''uploads/slide_02.png''] 0
        (take 2 demo_slides)
        (\<lparr>video_fragments = [], cycle_temp_files = [''uploads/slide_01.png'', ''uploads/slide_02.png'']\<rparr>,
         snd (prepare (demo_env demo_slides 2 (fail_at ''uploads/speaker_01_resized.mp4'')) demo_json demo_pdf
        (output_path_of demo_id) demo_world))))) =
     [''uploads/slide_01.png'', ''uploads/slide_02.png'', ''uploads/speaker_00.mp4'',
      ''uploads/slide_00.mp4'', ''uploads/speaker_00_resized.mp4'', ''uploads/combined_00.mp4'',
      ''uploads/speaker_01.mp4'', ''uploads/slide_01.mp4'']"
proof -
  let ?e = "demo_env demo_slides 2 (fail_at ''uploads/speaker_01_resized.mp4'')"
  let ?imgs = "[''uploads/slide_01.png'', ''uploads/slide_02.png'']"
  let ?prep = "prepare ?e demo_json demo_pdf (output_path_of demo_id) demo_world"
  let ?loop = "process_slides ?e ''uploads'' demo_video ?imgs 0 (take 2 demo_slides)
      (\<lparr>video_fragments = [], cycle_temp_files = ?imgs\<rparr>, snd ?prep)"
  have h1: "?prep = (Inr (demo_slides, ''uploads'', ?imgs), snd ?prep)"
    by code_simp
  have h2: "?loop = (fst ?loop, fst (snd ?loop), snd (snd ?loop))"
    by simp
  have r: "fst ?loop = Some (CalledProcessError 1
       (resize_video_cmd ''uploads/speaker_01.mp4'' ''uploads/speaker_01_resized.mp4''))"
    by code_simp
  have ev: "produced (drop (length (runs (trace demo_world))) (runs (trace (snd (snd ?loop))))) =
     [''uploads/speaker_00.mp4'', ''uploads/slide_00.mp4'', ''uploads/speaker_00_resized.mp4'',
      ''uploads/combined_00.mp4'', ''uploads/speaker_01.mp4'', ''uploads/slide_01.mp4'']"
    by code_simp
  show ?thesis
    using accumulator_holds_every_product [OF h1 h2] h1 r ev by simp
qed

subsection \<open>C6: the artifact paths are a function of the folder and the index\<close>

text \<open>
  Claim C6. The paths of the intermediate artifacts depend on nothing but the working
  folder (the directory of the output path), the number of pages and the number of
  segments: the page images are \<^verbatim>\<open>slide_NN.png\<close> numbered from 1, the four clips
  of a segment are named by the segment's index from 0, both with at least two digits.
  Hence two runs that complete, for the same output path, the same document and timelines
  of the same length, work on the same paths, whatever else differs between them (the
  environment, the world they start in, the timestamps of the segments).
\<close>

theorem artifact_paths_deterministic:
  assumes "run_pipeline e json_path presentation_path video_path output_path w = (None, tracked, w')"
    and "run_pipeline e' json_path' presentation_path' video_path' output_path v = (None, tracked', v')"
    and "json_slides e json_path = Inr (Some sl)" and "json_slides e' json_path' = Inr (Some sl')"
    and "length sl' = length sl"
    and "convert_from_path e presentation_path = Inr m"
    and "convert_from_path e' presentation_path' = Inr m"
  shows "tracked = planned_paths (os_path_dirname output_path) m (length sl) @ [''inputs.txt''] \<and>
     tracked' = tracked \<and>
     planned_paths (os_path_dirname output_path) m (length sl) =
       map (\<lambda>i. os_path_join (os_path_dirname output_path) (''slide_'' @ fmt_02d (i + 1) @ ''.png''))
         [0..<m] @
       concat (map (\<lambda>i.
         [os_path_join (os_path_dirname output_path) (''speaker_'' @ fmt_02d i @ ''.mp4''),
          os_path_join (os_path_dirname output_path) (''slide_'' @ fmt_02d i @ ''.mp4''),
          os_path_join (os_path_dirname output_path) (''speaker_'' @ fmt_02d i @ ''_resized.mp4''),
          os_path_join (os_path_dirname output_path) (''combined_'' @ fmt_02d i @ ''.mp4'')])
         [0..<length sl]) \<and>
     fmt_02d i = (if i < 10 then [CHR ''0'', digit_char i] else str_nat i)"
proof -
  from run_pipeline_success [OF assms(1)] assms(3,6)
  have 1: "tracked = planned_paths (os_path_dirname output_path) m (length sl) @ [''inputs.txt'']"
    by auto
  from run_pipeline_success [OF assms(2)] assms(4,5,7)
  have 2: "tracked' = planned_paths (os_path_dirname output_path) m (length sl) @ [''inputs.txt'']"
    by auto
  have 3: "planned_paths (os_path_dirname output_path) m (length sl) =
       map (\<lambda>i. os_path_join (os_path_dirname output_path) (''slide_'' @ fmt_02d (i + 1) @ ''.png''))
         [0..<m] @
       concat (map (\<lambda>i.
         [os_path_join (os_path_dirname output_path) (''speaker_'' @ fmt_02d i @ ''.mp4''),
          os_path_join (os_path_dirname output_path) (''slide_'' @ fmt_02d i @ ''.mp4''),
          os_path_join (os_path_dirname output_path) (''speaker_'' @ fmt_02d i @ ''_resized.mp4''),
          os_path_join (os_path_dirname output_path) (''combined_'' @ fmt_02d i @ ''.mp4'')])
         [0..<length sl])"
    unfolding planned_paths_def segment_paths_def slide_image_path_def speaker_cut_path_def
      slide_vid_path_def speaker_resized_path_def combined_path_def
    by (rule refl)
  have 4: "fmt_02d i = (if i < 10 then [CHR ''0'', digit_char i] else str_nat i)"
    by (simp add: fmt_02d_def str_nat.simps [of i])
  from 1 2 3 4 show ?thesis by blast
qed

theorem artifact_paths_deterministic_witness:
  "fst (run_pipeline (demo_env one_slide 1 all_succeed) demo_json demo_pdf
        demo_video (output_path_of demo_id) demo_world) = None \<and>
   fst (run_pipeline (demo_env [Object \<lparr>sd_title = None, sd_start = Some (JInt 3),
            sd_end = Some (JFloat (PyFloat ''9.5''))\<rparr>] 1 all_succeed)
        ''uploads/b_t.json'' ''uploads/b_d.pdf'' ''uploads/b_n.mp4'' (output_path_of demo_id)
        (demo_world\<lparr>trace := [UpdateState]\<rparr>)) = None \<and>
   json_slides (demo_env one_slide 1 all_succeed) demo_json = Inr (Some one_slide) \<and>
   convert_from_path (demo_env one_slide 1 all_succeed) demo_pdf = Inr 1 \<and>
   fst (snd (run_pipeline (demo_env one_slide 1 all_succeed) demo_json demo_pdf
        demo_video (output_path_of demo_id) demo_world)) =
     [''uploads/slide_01.png'', ''uploads/speaker_00.mp4'', ''uploads/slide_00.mp4'',
      ''uploads/speaker_00_resized.mp4'', ''uploads/combined_00.mp4'', ''inputs.txt''] \<and>
   fst (snd (run_pipeline (demo_env [Object \<lparr>sd_title = None, sd_start = Some (JInt 3),
            sd_end = Some (JFloat (PyFloat ''9.5''))\<rparr>] 1 all_succeed)
        ''uploads/b_t.json'' ''uploads/b_d.pdf'' ''uploads/b_n.mp4'' (output_path_of demo_id)
        (demo_world\<lparr>trace := [UpdateState]\<rparr>))) =
   fst (snd (run_pipeline (demo_env one_slide 1 all_succeed) demo_json demo_pdf
        demo_video (output_path_of demo_id) demo_world))"
proof -
  let ?other = "[Object \<lparr>sd_title = None, sd_start = Some (JInt 3),
            sd_end = Some (JFloat (PyFloat ''9.5''))\<rparr>]"
  let ?ea = "demo_env one_slide 1 all_succeed"
  let ?eb = "demo_env ?other 1 all_succeed"
  let ?ra = "run_pipeline ?ea demo_json demo_pdf demo_video (output_path_of demo_id) demo_world"
  let ?rb = "run_pipeline ?eb ''uploads/b_t.json'' ''uploads/b_d.pdf'' ''uploads/b_n.mp4''
        (output_path_of demo_id) (demo_world\<lparr>trace := [UpdateState]\<rparr>)"
  have oka: "fst ?ra = None" by code_simp
  have okb: "fst ?rb = None" by code_simp
  have ha: "?ra = (None, fst (snd ?ra), snd (snd ?ra))"
    using oka by (simp add: prod_eq_iff)
  have hb: "?rb = (None, fst (snd ?rb), snd (snd ?rb))"
    using okb by (simp add: prod_eq_iff)
  have ja: "json_slides ?ea demo_json = Inr (Some one_slide)"
    and jb: "json_slides ?eb ''uploads/b_t.json'' = Inr (Some ?other)"
    and ca: "convert_from_path ?ea demo_pdf = Inr 1"
    and cb: "convert_from_path ?eb ''uploads/b_d.pdf'' = Inr 1"
    by (simp_all add: demo_env_def)
  have len: "length ?other = length one_slide"
    by (simp add: one_slide_def)
  have ev: "planned_paths (os_path_dirname (output_path_of demo_id)) 1 (length one_slide) =
     [''uploads/slide_01.png'', ''uploads/speaker_00.mp4'', ''uploads/slide_00.mp4'',
      ''uploads/speaker_00_resized.mp4'', ''uploads/combined_00.mp4'']"
    by code_simp
  show ?thesis
    using artifact_paths_deterministic [OF ha hb ja jb len ca cb] oka okb ja ca ev by simp
qed

subsection \<open>C8: failed removals are swallowed\<close>

text \<open>
  Claim C8. Whether the operating system lets a file be removed has no influence on the
  outcome: with any other behaviour \<open>f\<close> of \<^verbatim>\<open>os.remove\<close>, the pipeline and the
  task return the same result, success or the same exception. A removal that fails
  inside a cleanup loop is reported (a warning in the pipeline, a printed line in the
  task), the file stays, and the loop goes on: after the loop exactly the files of the
  list that the system lets go are gone.
\<close>

theorem removal_failures_never_change_outcome:
  "fst (process_video_with_presentation (e\<lparr>remove_ok := f\<rparr>) json_path presentation_path
          video_path output_path w) =
     fst (process_video_with_presentation e json_path presentation_path video_path output_path w) \<and>
   fst (create_video_task (e\<lparr>remove_ok := f\<rparr>) request_id json_path pres_path video_path w) =
     fst (create_video_task e request_id json_path pres_path video_path w) \<and>
   (q \<in> set paths \<and> resolve e q \<in> files v \<and> \<not> remove_ok e (resolve e q) \<longrightarrow>
      Warned q \<in> set (trace (remove_each Warned e paths v)) \<and>
      Printed q \<in> set (trace (cleanup_files e paths v)) \<and>
      resolve e q \<in> files (remove_each Warned e paths v) \<and>
      resolve e q \<in> files (cleanup_files e paths v) \<and>
      files (remove_each Warned e paths v) =
        files v - {x \<in> resolve e ` set paths. remove_ok e x} \<and>
      files (cleanup_files e paths v) = files v - {x \<in> resolve e ` set paths. remove_ok e x})"
proof (intro conjI impI)
  show "fst (process_video_with_presentation (e\<lparr>remove_ok := f\<rparr>) json_path presentation_path
          video_path output_path w) =
     fst (process_video_with_presentation e json_path presentation_path video_path output_path w)"
    by (rule fst_process_remove_ok)
  show "fst (create_video_task (e\<lparr>remove_ok := f\<rparr>) request_id json_path pres_path video_path w) =
     fst (create_video_task e request_id json_path pres_path video_path w)"
    by (simp add: fst_create_video_task fst_process_remove_ok)
next
  assume a: "q \<in> set paths \<and> resolve e q \<in> files v \<and> \<not> remove_ok e (resolve e q)"
  then show "Warned q \<in> set (trace (remove_each Warned e paths v))"
    using remove_each_reports [of q paths e v Warned] by simp
  from a show "Printed q \<in> set (trace (cleanup_files e paths v))"
    using remove_each_reports [of q paths e v Printed] by (simp add: cleanup_files_def)
  from a show "resolve e q \<in> files (remove_each Warned e paths v)"
    using remove_each_reports [of q paths e v Warned] by simp
  from a show "resolve e q \<in> files (cleanup_files e paths v)"
    using remove_each_reports [of q paths e v Printed] by (simp add: cleanup_files_def)
  show "files (remove_each Warned e paths v) =
        files v - {x \<in> resolve e ` set paths. remove_ok e x}"
    by (simp add: remove_each_files)
  show "files (cleanup_files e paths v) = files v - {x \<in> resolve e ` set paths. remove_ok e x}"
    by (simp add: cleanup_files_def remove_each_files)
qed

theorem removal_failures_never_change_outcome_witness:
  "fst (create_video_task (demo_env one_slide 1 all_succeed) demo_id demo_json demo_pdf
          demo_video demo_world) =
     Inr \<lparr>status = ''SUCCESS'', result_path = output_path_of demo_id,
           result_filename = output_filename_of demo_id\<rparr> \<and>
   fst (create_video_task ((demo_env one_slide 1 all_succeed)\<lparr>remove_ok := keep_narration\<rparr>)
          demo_id demo_json demo_pdf demo_video demo_world) =
     Inr \<lparr>status = ''SUCCESS'', result_path = output_path_of demo_id,
           result_filename = output_filename_of demo_id\<rparr> \<and>
   demo_video \<in> set [demo_json, demo_pdf, demo_video] \<and>
   resolve ((demo_env one_slide 1 all_succeed)\<lparr>remove_ok := keep_narration\<rparr>) demo_video
     \<in> files demo_world \<and>
   \<not> remove_ok ((demo_env one_slide 1 all_succeed)\<lparr>remove_ok := keep_narration\<rparr>)
       (resolve ((demo_env one_slide 1 all_succeed)\<lparr>remove_ok := keep_narration\<rparr>) demo_video) \<and>
   Printed demo_video \<in>
     set (trace (cleanup_files ((demo_env one_slide 1 all_succeed)\<lparr>remove_ok := keep_narration\<rparr>)
       [demo_json, demo_pdf, demo_video] demo_world)) \<and>
   files (cleanup_files ((demo_env one_slide 1 all_succeed)\<lparr>remove_ok := keep_narration\<rparr>)
       [demo_json, demo_pdf, demo_video] demo_world) = {demo_video}"
proof -
  let ?e = "demo_env one_slide 1 all_succeed"
  let ?e' = "?e\<lparr>remove_ok := keep_narration\<rparr>"
  let ?paths = "[demo_json, demo_pdf, demo_video]"
  have ok: "fst (create_video_task ?e demo_id demo_json demo_pdf demo_video demo_world) =
     Inr \<lparr>status = ''SUCCESS'', result_path = output_path_of demo_id,
           result_filename = output_filename_of demo_id\<rparr>"
    by code_simp
  have res: "resolve ?e' demo_json = demo_json" "resolve ?e' demo_pdf = demo_pdf"
    "resolve ?e' demo_video = demo_video"
    by code_simp+
  have ne: "demo_json \<noteq> demo_video" "demo_pdf \<noteq> demo_video" "demo_json \<noteq> demo_pdf"
    by code_simp+
  have prem: "demo_video \<in> set ?paths \<and> resolve ?e' demo_video \<in> files demo_world \<and>
      \<not> remove_ok ?e' (resolve ?e' demo_video)"
    unfolding res by (simp add: demo_world_def keep_narration_def)
  have rm: "remove_ok ?e' = keep_narration"
    by simp
  note a = removal_failures_never_change_outcome [where e = ?e and f = keep_narration
      and request_id = demo_id and json_path = demo_json
      and pres_path = demo_pdf and video_path = demo_video
      and w = demo_world, THEN conjunct2, THEN conjunct1]
  note b = removal_failures_never_change_outcome [where e = ?e' and q = demo_video
      and paths = ?paths and v = demo_world, THEN conjunct2, THEN conjunct2, THEN mp, OF prem]
  from b have "Printed demo_video \<in> set (trace (cleanup_files ?e' ?paths demo_world))"
    and fl: "files (cleanup_files ?e' ?paths demo_world) =
      files demo_world - {x \<in> resolve ?e' ` set ?paths. remove_ok ?e' x}"
    by blast+
  moreover have "files demo_world - {x \<in> resolve ?e' ` set ?paths. remove_ok ?e' x} = {demo_video}"
    unfolding rm using res ne by (auto simp: demo_world_def keep_narration_def)
  ultimately show ?thesis
    using a ok prem by simp
qed

subsection \<open>C3: a failing segment\<close>

text \<open>
  Claim C3. Let the first \<open>k\<close> segments succeed and let a command of segment \<open>k\<close> exit
  with a status \<open>rc\<close> other than 0. Then the task fails with the
  \<^verbatim>\<open>CalledProcessError\<close> of that very command, one of the four commands of
  segment \<open>k\<close>. The commands run are those of the first \<open>k\<close> segments, the commands of
  segment \<open>k\<close> before the failing one, and the failing one, once and last: nothing is
  tried again and nothing runs after it, so the concatenation is not run and no manifest
  is written. After the task, the page images and the four clips of every segment before
  \<open>k\<close> are no longer files, and neither is the output path, unless the operating system
  refused their removal.
\<close>

theorem failing_segment_aborts_and_cleans:
  assumes upd: "update_state_ok e"
    and prep: "prepare e json_path pres_path (output_path_of request_id)
                 (w\<lparr>trace := trace w @ [UpdateState]\<rparr>) = (Inr (sl, temp, imgs), w2)"
    and k: "k < length sl"
    and before: "process_slides e temp video_path imgs 0 (take k sl)
                   (\<lparr>video_fragments = [], cycle_temp_files = imgs\<rparr>, w2) = (None, lk, wk)"
    and fails: "process_segment e temp video_path imgs k (sl ! k) (lk, wk) =
                  (Some (CalledProcessError rc c), lf, wx)"
    and task: "create_video_task e request_id json_path pres_path video_path w = (res, w')"
  shows "res = Inl (CalledProcessError rc c) \<and> rc \<noteq> 0 \<and>
     (\<exists>sd start end_t duration n.
        sl ! k = Object sd \<and> sd_start sd = Some start \<and> sd_end sd = Some end_t \<and>
        py_sub e end_t start = Inr duration \<and> n < 4 \<and>
        segment_steps e temp video_path (imgs ! k) k start end_t duration ! n = Inr c \<and>
        take n (segment_steps e temp video_path (imgs ! k) k start end_t duration) =
          map Inr (cmds_of (take n (segment_steps e temp video_path (imgs ! k) k start end_t duration))) \<and>
        drop (length (runs (trace w))) (runs (trace w')) =
          map (\<lambda>c. (c, Exit 0))
            (loop_cmds e temp video_path imgs 0 (take k sl) @
             cmds_of (take n (segment_steps e temp video_path (imgs ! k) k start end_t duration))) @
          [(c, Exit rc)]) \<and>
     length (loop_cmds e temp video_path imgs 0 (take k sl)) = 4 * k \<and>
     (\<forall>x. (concat_videos_cmd (output_path_of request_id), x) \<notin>
            set (drop (length (runs (trace w))) (runs (trace w')))) \<and>
     writes (trace w') = writes (trace w) \<and>
     (\<forall>q\<in>set imgs. resolve e q \<notin> files w' \<or> \<not> remove_ok e (resolve e q)) \<and>
     (\<forall>i<k. \<forall>q\<in>set (segment_paths temp i).
        resolve e q \<notin> files w' \<or> \<not> remove_ok e (resolve e q)) \<and>
     (resolve e (output_path_of request_id) \<notin> files w' \<or>
      \<not> remove_ok e (resolve e (output_path_of request_id)))"
proof -
  let ?out = "output_path_of request_id"
  let ?wu = "w\<lparr>trace := trace w @ [UpdateState]\<rparr>"
  let ?l0 = "\<lparr>video_fragments = [], cycle_temp_files = imgs\<rparr>"
  let ?err = "CalledProcessError rc c"
  from prepare_Inr [OF prep] have p: "runs (trace w2) = runs (trace w)"
    "writes (trace w2) = writes (trace w)"
    by simp_all
  \<comment> \<open>the loop stops in segment \<open>k\<close>\<close>
  have split: "sl = take k sl @ sl ! k # drop (Suc k) sl"
    using k by (simp add: id_take_nth_drop)
  have lenk: "length (take k sl) = k"
    using k by simp
  have "process_slides e temp video_path imgs 0 (take k sl @ sl ! k # drop (Suc k) sl) (?l0, w2) =
      (Some ?err, lf, wx)"
    using before fails lenk by (simp add: process_slides_append)
  with split have loop: "process_slides e temp video_path imgs 0 sl (?l0, w2) = (Some ?err, lf, wx)"
    by simp
  then have tb: "try_block e video_path ?out temp sl imgs (?l0, w2) = (Some ?err, lf, wx)"
    by (simp add: try_block_def)
  define tracked where "tracked = cycle_temp_files lf @
      (if os_path_exists e wx ''inputs.txt'' then [''inputs.txt''] else [])"
  define w4 where "w4 = remove_each Warned e tracked wx"
  have run: "run_pipeline e json_path pres_path video_path ?out ?wu = (Some ?err, tracked, w4)"
    unfolding w4_def by (rule run_pipeline_compose [OF prep tb tracked_def])
  from create_video_task_failure [OF upd run] task
  have res: "res = Inl ?err"
    and w': "w' = cleanup_files e [json_path, pres_path, video_path]
        (cleanup_files e [json_path, pres_path, video_path, ?out]
           (w4\<lparr>trace := trace w4 @ [TaskFailed ?err]\<rparr>))"
    by simp_all
  \<comment> \<open>what is left of the files and of the trace\<close>
  have files: "files w' \<subseteq> files wx - {f \<in> resolve e ` set tracked. remove_ok e f}"
    "files w' \<subseteq> - {f. f = resolve e ?out \<and> remove_ok e f}"
    unfolding w' w4_def by (auto simp: cleanup_files_proj remove_each_files)
  have tr: "runs (trace w') = runs (trace wx)" "writes (trace w') = writes (trace wx)"
    unfolding w' w4_def
    by (simp_all add: cleanup_files_proj remove_each_runs remove_each_writes)
  from process_slides_None [OF before] lenk have bk:
    "trace wk = trace w2 @ ok_events (loop_cmds e temp video_path imgs 0 (take k sl))"
    "cycle_temp_files lk = imgs @ concat (map (segment_paths temp) [0..<k])"
    "length (loop_cmds e temp video_path imgs 0 (take k sl)) = 4 * k"
    by simp_all
  from process_segment_CPE [OF fails] obtain sd start end_t duration n where f:
    "sl ! k = Object sd" "sd_start sd = Some start" "sd_end sd = Some end_t"
    "py_sub e end_t start = Inr duration" "n < 4" "rc \<noteq> 0"
    "segment_steps e temp video_path (imgs ! k) k start end_t duration ! n = Inr c"
    "take n (segment_steps e temp video_path (imgs ! k) k start end_t duration) =
       map Inr (cmds_of (take n (segment_steps e temp video_path (imgs ! k) k start end_t duration)))"
    "trace wx = trace wk @
       ok_events (cmds_of (take n (segment_steps e temp video_path (imgs ! k) k start end_t duration))) @
       [Run c (Exit rc)]"
    "cycle_temp_files lf = cycle_temp_files lk @
       map last (cmds_of (take n (segment_steps e temp video_path (imgs ! k) k start end_t duration)))"
    by blast
  let ?xs = "segment_steps e temp video_path (imgs ! k) k start end_t duration"
  have new: "drop (length (runs (trace w))) (runs (trace w')) =
      map (\<lambda>c. (c, Exit 0)) (loop_cmds e temp video_path imgs 0 (take k sl) @ cmds_of (take n ?xs)) @
      [(c, Exit rc)]"
    using tr(1) f(9) bk(1) p(1) by simp
  have cmem: "Inr c \<in> set ?xs"
    using f(5,7) nth_mem [of n ?xs] by simp
  have pre: "\<And>d. d \<in> set (cmds_of (take n ?xs)) \<Longrightarrow> Inr d \<in> set ?xs"
    by (auto simp: cmds_of_set dest: in_set_takeD)
  have noconcat: "\<forall>x. (concat_videos_cmd ?out, x) \<notin>
      set (drop (length (runs (trace w))) (runs (trace w')))"
  proof
    fix x
    show "(concat_videos_cmd ?out, x) \<notin> set (drop (length (runs (trace w))) (runs (trace w')))"
      unfolding new
      using loop_cmds_not_concat [of "concat_videos_cmd ?out" e temp video_path imgs 0 "take k sl" ?out]
        segment_steps_not_concat [OF cmem, of ?out]
        segment_steps_not_concat [OF pre, of "concat_videos_cmd ?out" ?out]
      by auto
  qed
  have wr: "writes (trace w') = writes (trace w)"
    using tr(2) f(9) bk(1) p(2) by simp
  have imgs: "\<forall>q\<in>set imgs. resolve e q \<notin> files w' \<or> \<not> remove_ok e (resolve e q)"
    using files(1) f(10) bk(2) tracked_def by auto
  have segs: "\<forall>i<k. \<forall>q\<in>set (segment_paths temp i).
      resolve e q \<notin> files w' \<or> \<not> remove_ok e (resolve e q)"
  proof (intro allI impI ballI)
    fix i q assume "i < k" "q \<in> set (segment_paths temp i)"
    then have "q \<in> set (concat (map (segment_paths temp) [0..<k]))"
      by auto
    then have "q \<in> set tracked"
      using f(10) bk(2) tracked_def by simp
    with files(1) show "resolve e q \<notin> files w' \<or> \<not> remove_ok e (resolve e q)" by auto
  qed
  have out: "resolve e ?out \<notin> files w' \<or> \<not> remove_ok e (resolve e ?out)"
    using files(2) by auto
  have ex: "\<exists>sd start end_t duration n.
        sl ! k = Object sd \<and> sd_start sd = Some start \<and> sd_end sd = Some end_t \<and>
        py_sub e end_t start = Inr duration \<and> n < 4 \<and>
        segment_steps e temp video_path (imgs ! k) k start end_t duration ! n = Inr c \<and>
        take n (segment_steps e temp video_path (imgs ! k) k start end_t duration) =
          map Inr (cmds_of (take n (segment_steps e temp video_path (imgs ! k) k start end_t duration))) \<and>
        drop (length (runs (trace w))) (runs (trace w')) =
          map (\<lambda>c. (c, Exit 0))
            (loop_cmds e temp video_path imgs 0 (take k sl) @
             cmds_of (take n (segment_steps e temp video_path (imgs ! k) k start end_t duration))) @
          [(c, Exit rc)]"
    apply (rule exI [of _ sd], rule exI [of _ start], rule exI [of _ end_t],
        rule exI [of _ duration], rule exI [of _ n])
    using f(1-5,7,8) new by simp
  from res f(6) ex bk(3) noconcat wr imgs segs out show ?thesis
    by blast
qed

theorem failing_segment_aborts_and_cleans_witness:
  "update_state_ok (demo_env demo_slides 2 (fail_at ''uploads/speaker_01_resized.mp4'')) \<and>
   prepare (demo_env demo_slides 2 (fail_at ''uploads/speaker_01_resized.mp4''))
        demo_json demo_pdf (output_path_of demo_id)
        (demo_world\<lparr>trace := trace demo_world @ [UpdateState]\<rparr>) =
     (Inr (demo_slides, ''uploads'', [''uploads/slide_01.png'', ''uploads/slide_02.png'']),
      snd (prepare (demo_env demo_slides 2 (fail_at ''uploads/speaker_01_resized.mp4''))
        demo_json demo_pdf (output_path_of demo_id)
        (demo_world\<lparr>trace := trace demo_world @ [UpdateState]\<rparr>))) \<and>
   (1::nat) < length demo_slides \<and>
   fst (process_slides (demo_env demo_slides 2 (fail_at ''uploads/speaker_01_resized.mp4''))
        ''uploads'' demo_video [''uploads/slide_01.png'', ''uploads/slide_02.png''] 0 (take 1 demo_slides)
        (\<lparr>video_fragments = [], cycle_temp_files = [''uploads/slide_01.png'', ''uploads/slide_02.png'']\<rparr>,
         snd (prepare (demo_env demo_slides 2 (fail_at ''uploads/speaker_01_resized.mp4''))
        demo_json demo_pdf (output_path_of demo_id)
        (demo_world\<lparr>trace := trace demo_world @ [UpdateState]\<rparr>)))) = None \<and>
   fst (process_segment (demo_env demo_slides 2 (fail_at ''uploads/speaker_01_resized.mp4''))
        ''uploads'' demo_video [''uploads/slide_01.png'', ''uploads/slide_02.png''] 1 (demo_slides ! 1)
        (snd (process_slides (demo_env demo_slides 2 (fail_at ''uploads/speaker_01_resized.mp4''))
        ''uploads'' demo_video [''uploads/slide_01.png'', ''uploads/slide_02.png''] 0 (take 1 demo_slides)
        (\<lparr>video_fragments = [], cycle_temp_files = [''uploads/slide_01.png'', ''uploads/slide_02.png'']\<rparr>,
         snd (prepare (demo_env demo_slides 2 (fail_at ''uploads/speaker_01_resized.mp4''))
        demo_json demo_pdf (output_path_of demo_id)
        (demo_world\<lparr>trace := trace demo_world @ [UpdateState]\<rparr>)))))) =
     Some (CalledProcessError 1 (resize_video_cmd ''uploads/speaker_01.mp4'' ''uploads/speaker_01_resized.mp4'')) \<and>
   fst (create_video_task (demo_env demo_slides 2 (fail_at ''uploads/speaker_01_resized.mp4''))
        demo_id demo_json demo_pdf demo_video demo_world) =
     Inl (CalledProcessError 1 (resize_video_cmd ''uploads/speaker_01.mp4'' ''uploads/speaker_01_resized.mp4'')) \<and>
   writes (trace (snd (create_video_task (demo_env demo_slides 2 (fail_at ''uploads/speaker_01_resized.mp4''))
        demo_id demo_json demo_pdf demo_video demo_world))) = writes (trace demo_world) \<and>
   ''uploads/combined_00.mp4'' \<notin> files (snd (create_video_task (demo_env demo_slides 2 (fail_at ''uploads/speaker_01_resized.mp4''))
        demo_id demo_json demo_pdf demo_video demo_world)) \<and>
   output_path_of demo_id \<notin> files (snd (create_video_task (demo_env demo_slides 2 (fail_at ''uploads/speaker_01_resized.mp4''))
        demo_id demo_json demo_pdf demo_video demo_world))"
proof -
  let ?e = "demo_env demo_slides 2 (fail_at ''uploads/speaker_01_resized.mp4'')"
  let ?imgs = "[''uploads/slide_01.png'', ''uploads/slide_02.png'']"
  let ?wu = "demo_world\<lparr>trace := trace demo_world @ [UpdateState]\<rparr>"
  let ?prep = "prepare ?e demo_json demo_pdf (output_path_of demo_id) ?wu"
  let ?x = "process_slides ?e ''uploads'' demo_video ?imgs 0 (take 1 demo_slides)
      (\<lparr>video_fragments = [], cycle_temp_files = ?imgs\<rparr>, snd ?prep)"
  let ?y = "process_segment ?e ''uploads'' demo_video ?imgs 1 (demo_slides ! 1) (snd ?x)"
  let ?t = "create_video_task ?e demo_id demo_json demo_pdf demo_video demo_world"
  let ?c = "resize_video_cmd ''uploads/speaker_01.mp4'' ''uploads/speaker_01_resized.mp4''"
  have upd: "update_state_ok ?e"
    by (simp add: demo_env_def)
  have prep: "?prep = (Inr (demo_slides, ''uploads'', ?imgs), snd ?prep)"
    by code_simp
  have k: "(1::nat) < length demo_slides"
    by (simp add: demo_slides_def)
  have okx: "fst ?x = None"
    by code_simp
  have before: "?x = (None, fst (snd ?x), snd (snd ?x))"
    using okx by (simp add: prod_eq_iff)
  have oky: "fst ?y = Some (CalledProcessError 1 ?c)"
    by code_simp
  have fails: "process_segment ?e ''uploads'' demo_video ?imgs 1 (demo_slides ! 1)
      (fst (snd ?x), snd (snd ?x)) = (Some (CalledProcessError 1 ?c), fst (snd ?y), snd (snd ?y))"
    using oky by (simp add: prod_eq_iff)
  have task: "?t = (fst ?t, snd ?t)"
    by simp
  have rm: "\<And>q. remove_ok ?e q"
    by (simp add: demo_env_def)
  have mem: "''uploads/combined_00.mp4'' \<in> set (segment_paths ''uploads'' 0)"
    by code_simp
  have r1: "resolve ?e ''uploads/combined_00.mp4'' = ''uploads/combined_00.mp4''"
    and r2: "resolve ?e (output_path_of demo_id) = output_path_of demo_id"
    by code_simp+
  from failing_segment_aborts_and_cleans [OF upd prep k before fails task]
  have "fst ?t = Inl (CalledProcessError 1 ?c)"
    "writes (trace (snd ?t)) = writes (trace demo_world)"
    "\<forall>i<1. \<forall>q\<in>set (segment_paths ''uploads'' i).
       resolve ?e q \<notin> files (snd ?t) \<or> \<not> remove_ok ?e (resolve ?e q)"
    "resolve ?e (output_path_of demo_id) \<notin> files (snd ?t) \<or>
     \<not> remove_ok ?e (resolve ?e (output_path_of demo_id))"
    by blast+
  with rm mem r1 r2 have "fst ?t = Inl (CalledProcessError 1 ?c)"
    "writes (trace (snd ?t)) = writes (trace demo_world)"
    "''uploads/combined_00.mp4'' \<notin> files (snd ?t)"
    "output_path_of demo_id \<notin> files (snd ?t)"
    by auto
  with upd prep k okx oky show ?thesis
    by blast
qed


end
